theory Spec2Isabelle
  imports Complex_Main
begin

section \<open>Scalars and vectors\<close>

text \<open>
  The first-person demo computes with single-precision \<^verbatim>\<open>float\<close> scalars and GLM
  vectors. Scalars are modelled as \<^typ>\<open>real\<close>: every arithmetic operation is the exact
  one, every decimal literal stands for its decimal value, and \<^verbatim>\<open>sinf\<close>, \<^verbatim>\<open>cosf\<close>,
  \<^verbatim>\<open>acosf\<close> and \<^verbatim>\<open>sqrt\<close> are the real functions. Infinities and NaN are outside the
  model, and so is rounding, except in the accumulation of the pointer delta, which has a
  second model with its single-precision roundings.
\<close>

record vec2 =
  v2x :: real
  v2y :: real

record vec3 =
  vx :: real
  vy :: real
  vz :: real

definition vec3_of :: "real \<Rightarrow> vec3" where
  \<comment> \<open>\<^verbatim>\<open>glm::vec3(s)\<close>: all three components equal\<close>
  "vec3_of s = \<lparr>vx = s, vy = s, vz = s\<rparr>"

definition vadd :: "vec3 \<Rightarrow> vec3 \<Rightarrow> vec3" where
  "vadd a b = \<lparr>vx = vx a + vx b, vy = vy a + vy b, vz = vz a + vz b\<rparr>"

definition smul :: "vec3 \<Rightarrow> real \<Rightarrow> vec3" where
  "smul a s = \<lparr>vx = vx a * s, vy = vy a * s, vz = vz a * s\<rparr>"

definition VecNeg :: "vec3 \<Rightarrow> vec3" where
  "VecNeg v = \<lparr>vx = - vx v, vy = - vy v, vz = - vz v\<rparr>"

definition dot :: "vec3 \<Rightarrow> vec3 \<Rightarrow> real" where
  \<comment> \<open>\<^verbatim>\<open>glm::dot\<close>\<close>
  "dot a b = vx a * vx b + vy a * vy b + vz a * vz b"

definition cross :: "vec3 \<Rightarrow> vec3 \<Rightarrow> vec3" where
  \<comment> \<open>\<^verbatim>\<open>glm::cross\<close>\<close>
  "cross a b =
     \<lparr>vx = vy a * vz b - vy b * vz a,
      vy = vz a * vx b - vz b * vx a,
      vz = vx a * vy b - vx b * vy a\<rparr>"

definition glm_length :: "vec3 \<Rightarrow> real" where
  \<comment> \<open>\<^verbatim>\<open>glm::length\<close>\<close>
  "glm_length a = sqrt (dot a a)"

definition normalize :: "vec3 \<Rightarrow> vec3" where
  \<comment> \<open>\<^verbatim>\<open>glm::normalize\<close>: \<^verbatim>\<open>v * inversesqrt(dot(v, v))\<close>\<close>
  "normalize a = smul a (1 / sqrt (dot a a))"

definition clampf :: "real \<Rightarrow> real \<Rightarrow> real \<Rightarrow> real" where
  \<comment> \<open>\<^verbatim>\<open>glm::clamp(x, minVal, maxVal)\<close> is \<^verbatim>\<open>min(max(x, minVal), maxVal)\<close>\<close>
  "clampf x minVal maxVal = min (max x minVal) maxVal"

definition mix :: "real \<Rightarrow> real \<Rightarrow> real \<Rightarrow> real" where
  \<comment> \<open>\<^verbatim>\<open>glm::mix(x, y, a)\<close> is \<^verbatim>\<open>x*(1 - a) + y*a\<close>\<close>
  "mix x y a = x * (1 - a) + y * a"

definition mix3 :: "vec3 \<Rightarrow> vec3 \<Rightarrow> real \<Rightarrow> vec3" where
  \<comment> \<open>\<^verbatim>\<open>glm::mix\<close> on vectors, componentwise\<close>
  "mix3 a b t = \<lparr>vx = mix (vx a) (vx b) t, vy = mix (vy a) (vy b) t, vz = mix (vz a) (vz b) t\<rparr>"

section \<open>Constants\<close>

definition GRAVITY :: real where "GRAVITY = 32"
definition MAX_SPEED :: real where "MAX_SPEED = 20"
definition CROUCH_SPEED :: real where "CROUCH_SPEED = 5"
definition JUMP_FORCE :: real where "JUMP_FORCE = 12"
definition MAX_ACCEL :: real where "MAX_ACCEL = 150"
definition FRICTION :: real where "FRICTION = 86 / 100"
definition AIR_DRAG :: real where "AIR_DRAG = 98 / 100"
definition CONTROL :: real where "CONTROL = 15"
definition CROUCH_HEIGHT :: real where "CROUCH_HEIGHT = 0"
definition STAND_HEIGHT :: real where "STAND_HEIGHT = 1"
definition BOTTOM_HEIGHT :: real where "BOTTOM_HEIGHT = 5 / 10"
definition PI_F :: real where
  \<comment> \<open>the literal \<^verbatim>\<open>3.14159265358979323846f\<close>, as the decimal it is written as\<close>
  "PI_F = 314159265358979323846 / 100000000000000000000"

definition sensitivity :: vec2 where
  "sensitivity = \<lparr>v2x = 1 / 1000, v2y = 1 / 1000\<rparr>"

section \<open>The kinematic body\<close>

record Body =
  position :: vec3
  velocity :: vec3
  dir :: vec3
  isGrounded :: bool

definition Body_init :: Body where
  \<comment> \<open>the member initialisers of \<^verbatim>\<open>struct Body\<close>\<close>
  "Body_init = \<lparr>position = vec3_of 0, velocity = vec3_of 0, dir = vec3_of 0, isGrounded = True\<rparr>"

text \<open>
  \<^verbatim>\<open>UpdateBody\<close> mutates the body through a pointer; the model takes the body and
  returns the updated one. Each group of statements of the source is one function, and
  \<open>UpdateBody\<close> applies them in the source's order. \<open>side\<close> and \<open>forward\<close> are the
  \<^verbatim>\<open>char\<close> arguments, converted to \<^verbatim>\<open>float\<close> where \<open>input\<close> is built.
\<close>

definition apply_gravity :: "Body \<Rightarrow> real \<Rightarrow> Body" where
  \<comment> \<open>\<^verbatim>\<open>if (!body->isGrounded) body->velocity.y -= GRAVITY*delta;\<close>\<close>
  "apply_gravity body delta =
    (if \<not> isGrounded body
     then body\<lparr>velocity := (velocity body)\<lparr>vy := vy (velocity body) - GRAVITY * delta\<rparr>\<rparr>
     else body)"

definition apply_jump :: "Body \<Rightarrow> bool \<Rightarrow> Body" where
  \<comment> \<open>\<^verbatim>\<open>if (body->isGrounded && jumpPressed) { velocity.y = JUMP_FORCE; isGrounded = false; }\<close>\<close>
  "apply_jump body jumpPressed =
    (if isGrounded body \<and> jumpPressed
     then body\<lparr>velocity := (velocity body)\<lparr>vy := JUMP_FORCE\<rparr>, isGrounded := False\<rparr>
     else body)"

definition desiredDir_of :: "real \<Rightarrow> int \<Rightarrow> int \<Rightarrow> vec3" where
  \<comment> \<open>\<open>input\<close>, \<open>front\<close>, \<open>right\<close> and \<open>desiredDir\<close>\<close>
  "desiredDir_of rot side forward =
    (let input = \<lparr>v2x = real_of_int side, v2y = real_of_int (- forward)\<rparr>;
         front = \<lparr>vx = sin rot, vy = 0, vz = cos rot\<rparr>;
         right = \<lparr>vx = cos (- rot), vy = 0, vz = sin (- rot)\<rparr>
     in \<lparr>vx = v2x input * vx right + v2y input * vx front, vy = 0,
         vz = v2x input * vz right + v2y input * vz front\<rparr>)"

definition steer :: "Body \<Rightarrow> vec3 \<Rightarrow> real \<Rightarrow> Body" where
  \<comment> \<open>\<^verbatim>\<open>body->dir = glm::mix(body->dir, desiredDir, glm::clamp(CONTROL*delta, 0.0f, 1.0f));\<close>\<close>
  "steer body desiredDir delta =
     body\<lparr>dir := mix3 (dir body) desiredDir (clampf (CONTROL * delta) 0 1)\<rparr>"

definition decayed_hvel :: "Body \<Rightarrow> vec3" where
  \<comment> \<open>\<open>hvel\<close> after the decel factor and the small-speed cut-off\<close>
  "decayed_hvel body =
    (let decel = (if isGrounded body then FRICTION else AIR_DRAG);
         hvel = \<lparr>vx = vx (velocity body) * decel, vy = 0, vz = vz (velocity body) * decel\<rparr>;
         hvelLength = glm_length hvel
     in if hvelLength < MAX_SPEED * (1 / 100) then vec3_of 0 else hvel)"

definition accel_of :: "vec3 \<Rightarrow> vec3 \<Rightarrow> bool \<Rightarrow> real \<Rightarrow> real" where
  \<comment> \<open>\<open>speed\<close>, \<open>maxSpeed\<close> and \<open>accel\<close>, from \<open>hvel\<close> and \<open>body->dir\<close>\<close>
  "accel_of hvel d crouchHold delta =
    (let speed = dot hvel d;
         maxSpeed = (if crouchHold then CROUCH_SPEED else MAX_SPEED)
     in clampf (maxSpeed - speed) 0 (MAX_ACCEL * delta))"

definition accelerate :: "Body \<Rightarrow> bool \<Rightarrow> real \<Rightarrow> Body" where
  \<comment> \<open>from \<open>decel\<close> to the assignments of \<open>velocity.x\<close> and \<open>velocity.z\<close>\<close>
  "accelerate body crouchHold delta =
    (let hvel = decayed_hvel body;
         accel = accel_of hvel (dir body) crouchHold delta;
         hvel = hvel\<lparr>vx := vx hvel + vx (dir body) * accel,
                     vz := vz hvel + vz (dir body) * accel\<rparr>
     in body\<lparr>velocity := (velocity body)\<lparr>vx := vx hvel, vz := vz hvel\<rparr>\<rparr>)"

definition integrate :: "Body \<Rightarrow> real \<Rightarrow> Body" where
  \<comment> \<open>\<^verbatim>\<open>position += velocity*delta\<close>, one component at a time\<close>
  "integrate body delta =
     body\<lparr>position := \<lparr>vx = vx (position body) + vx (velocity body) * delta,
                         vy = vy (position body) + vy (velocity body) * delta,
                         vz = vz (position body) + vz (velocity body) * delta\<rparr>\<rparr>"

definition ground_clamp :: "Body \<Rightarrow> Body" where
  \<comment> \<open>\<^verbatim>\<open>if (body->position.y <= 0.0f) { position.y = 0; velocity.y = 0; isGrounded = true; }\<close>\<close>
  "ground_clamp body =
    (if vy (position body) \<le> 0
     then body\<lparr>position := (position body)\<lparr>vy := 0\<rparr>,
               velocity := (velocity body)\<lparr>vy := 0\<rparr>,
               isGrounded := True\<rparr>
     else body)"

definition UpdateBody :: "Body \<Rightarrow> real \<Rightarrow> int \<Rightarrow> int \<Rightarrow> bool \<Rightarrow> bool \<Rightarrow> real \<Rightarrow> Body" where
  "UpdateBody body rot side forward jumpPressed crouchHold delta =
    (let body = apply_gravity body delta;
         body = apply_jump body jumpPressed;
         body = steer body (desiredDir_of rot side forward) delta;
         body = accelerate body crouchHold delta;
         body = integrate body delta
     in ground_clamp body)"

section \<open>Math helpers of the camera\<close>

text \<open>
  \<^verbatim>\<open>RotateVecByAxisAngle\<close> builds \<^verbatim>\<open>glm::rotate(mat4(1), angle, normalize(axis))\<close> and
  applies it to \<^verbatim>\<open>vec4(v, 1)\<close>. \<^verbatim>\<open>glm::rotate\<close> normalises its axis once more and fills
  the upper-left 3x3 block \<open>Rotate\<close>; on the identity matrix the product with \<open>v\<close> is
  the sum of the columns of that block weighted by the components of \<open>v\<close>.
\<close>

definition RotateVecByAxisAngle :: "vec3 \<Rightarrow> vec3 \<Rightarrow> real \<Rightarrow> vec3" where
  "RotateVecByAxisAngle v axis0 angle =
    (let c = cos angle;
         s = sin angle;
         axis = normalize (normalize axis0);
         temp = smul axis (1 - c);
         Rotate00 = c + vx temp * vx axis;
         Rotate01 = vx temp * vy axis + s * vz axis;
         Rotate02 = vx temp * vz axis - s * vy axis;
         Rotate10 = vy temp * vx axis - s * vz axis;
         Rotate11 = c + vy temp * vy axis;
         Rotate12 = vy temp * vz axis + s * vx axis;
         Rotate20 = vz temp * vx axis + s * vy axis;
         Rotate21 = vz temp * vy axis - s * vx axis;
         Rotate22 = c + vz temp * vz axis
     in \<lparr>vx = Rotate00 * vx v + Rotate10 * vy v + Rotate20 * vz v,
         vy = Rotate01 * vx v + Rotate11 * vy v + Rotate21 * vz v,
         vz = Rotate02 * vx v + Rotate12 * vy v + Rotate22 * vz v\<rparr>)"

text \<open>
  A floating-point division is modelled as a partial operation: \<open>None\<close> stands for a
  division whose divisor is zero.
\<close>

definition fdiv :: "real \<Rightarrow> real \<Rightarrow> real option" where
  "fdiv a b = (if b = 0 then None else Some (a / b))"

definition VecAngle :: "vec3 \<Rightarrow> vec3 \<Rightarrow> real option" where
  "VecAngle a b =
    (let la = glm_length a; lb = glm_length b
     in if la = 0 \<or> lb = 0 then Some 0
        else (case fdiv (dot a b) (la * lb) of
                None \<Rightarrow> None
              | Some d \<Rightarrow> Some (arccos (clampf d (- 1) 1))))"

section \<open>Program state and the frame loop\<close>

text \<open>
  The globals of the program, the static \<open>prev\<close> of \<^verbatim>\<open>getDeltaSeconds\<close> and the camera
  locals of \<^verbatim>\<open>main\<close> that live across iterations of the frame loop.
\<close>

record game =
  player :: Body
  lookRotation :: vec2
  headTimer :: real
  walkLerp :: real
  headLerp :: real
  lean :: vec2
  lastMouseX :: real
  lastMouseY :: real
  firstMouse :: bool
  prevSpace :: bool
  prev :: real
  cameraFovy :: real
  cameraPosition :: vec3
  cameraTarget :: vec3
  cameraUp :: vec3

text \<open>What one iteration reads from GLFW: the clock, the cursor and the keys.\<close>

record frame_input =
  now :: real
  mx :: real
  my :: real
  KEY_D :: bool
  KEY_A :: bool
  KEY_W :: bool
  KEY_S :: bool
  KEY_LEFT_CONTROL :: bool
  KEY_SPACE :: bool

definition game_init :: "real \<Rightarrow> real \<Rightarrow> game" where
  \<comment> \<open>the state on entry to the loop; the arguments are the cursor position read at start-up\<close>
  "game_init mx0 my0 =
    \<lparr>player = Body_init,
     lookRotation = \<lparr>v2x = 0, v2y = 0\<rparr>,
     headTimer = 0,
     walkLerp = 0,
     headLerp = STAND_HEIGHT,
     lean = \<lparr>v2x = 0, v2y = 0\<rparr>,
     lastMouseX = mx0,
     lastMouseY = my0,
     firstMouse = True,
     prevSpace = False,
     prev = 0,
     cameraFovy = 60,
     cameraPosition = \<lparr>vx = 0, vy = 0 + (BOTTOM_HEIGHT + STAND_HEIGHT), vz = 0\<rparr>,
     cameraTarget = \<lparr>vx = 0, vy = 0 + (BOTTOM_HEIGHT + STAND_HEIGHT), vz = 0 + (- 1)\<rparr>,
     cameraUp = \<lparr>vx = 0, vy = 1, vz = 0\<rparr>\<rparr>"

definition getDeltaSeconds :: "real \<Rightarrow> real \<Rightarrow> real \<times> real" where
  \<comment> \<open>takes the static \<open>prev\<close> and the clock; returns \<open>dt\<close> and the new \<open>prev\<close>\<close>
  "getDeltaSeconds prev0 now0 =
    (let prev1 = (if prev0 = 0 then now0 else prev0);
         dt = now0 - prev1;
         dt = (if dt \<le> 0 then 1 / 60 else dt)
     in (dt, now0))"

definition accumulate_look :: "vec2 \<Rightarrow> real \<Rightarrow> real \<Rightarrow> vec2" where
  \<comment> \<open>\<^verbatim>\<open>lookRotation.x -= dx * sensitivity.x; lookRotation.y += dy * sensitivity.y\<close>\<close>
  "accumulate_look lr dx dy =
    (let lr = lr\<lparr>v2x := v2x lr - dx * v2x sensitivity\<rparr>
     in lr\<lparr>v2y := v2y lr + dy * v2y sensitivity\<rparr>)"

definition pitchAngle_of :: "vec2 \<Rightarrow> vec2 \<Rightarrow> real" where
  \<comment> \<open>the local \<open>pitchAngle\<close> of \<^verbatim>\<open>UpdateCameraFPS\<close>, from \<open>lookRotation\<close> and \<open>lean\<close>\<close>
  "pitchAngle_of lr lean0 =
    (let pitchAngle = - v2y lr - v2y lean0
     in clampf pitchAngle (- PI_F / 2 + 1 / 10000) (PI_F / 2 - 1 / 10000))"

text \<open>
  \<^verbatim>\<open>UpdateCameraFPS\<close> reads the globals, clamps \<open>lookRotation.y\<close> in place and writes the
  three camera vectors passed by reference. Its locals are the functions below, in the
  order of the source. The result is \<open>None\<close> when an angle computation divides by zero.
\<close>

definition world_up :: vec3 where
  "world_up = \<lparr>vx = 0, vy = 1, vz = 0\<rparr>"

definition view_yaw :: "game \<Rightarrow> vec3" where
  \<comment> \<open>\<open>yaw\<close>: \<open>targetOffset\<close> turned about \<open>up\<close> by \<open>lookRotation.x\<close>\<close>
  "view_yaw g = RotateVecByAxisAngle \<lparr>vx = 0, vy = 0, vz = - 1\<rparr> world_up (v2x (lookRotation g))"

definition clamp_view_up :: "vec2 \<Rightarrow> real \<Rightarrow> vec2" where
  \<comment> \<open>"Clamp view up", from the angle between \<open>up\<close> and \<open>yaw\<close>\<close>
  "clamp_view_up lr angle =
    (let maxAngleUp = angle - 1 / 1000
     in if - v2y lr > maxAngleUp then lr\<lparr>v2y := - maxAngleUp\<rparr> else lr)"

definition clamp_view_down :: "vec2 \<Rightarrow> real \<Rightarrow> vec2" where
  \<comment> \<open>"Clamp view down", from the angle between \<open>-up\<close> and \<open>yaw\<close>\<close>
  "clamp_view_down lr angle =
    (let maxAngleDown = angle * (- 1);
         maxAngleDown = maxAngleDown + 1 / 1000
     in if - v2y lr < maxAngleDown then lr\<lparr>v2y := - maxAngleDown\<rparr> else lr)"

definition view_right :: "vec3 \<Rightarrow> vec3" where
  "view_right yaw = normalize (cross yaw world_up)"

definition view_pitch :: "game \<Rightarrow> vec3 \<Rightarrow> vec3" where
  \<comment> \<open>\<open>pitch\<close>: \<open>yaw\<close> turned about \<open>right\<close> by the clamped \<open>pitchAngle\<close>\<close>
  "view_pitch g yaw =
     RotateVecByAxisAngle yaw (view_right yaw) (pitchAngle_of (lookRotation g) (lean g))"

definition view_up :: "game \<Rightarrow> vec3 \<Rightarrow> vec3" where
  \<comment> \<open>\<open>camUp\<close>, with \<open>stepRotation = 0.01\<close>\<close>
  "view_up g yaw =
    (let headSin = sin (headTimer g * PI_F);
         stepRotation = 1 / 100
     in RotateVecByAxisAngle world_up (view_pitch g yaw) (headSin * stepRotation + v2x (lean g)))"

definition view_bobbing :: "game \<Rightarrow> vec3 \<Rightarrow> vec3" where
  \<comment> \<open>\<open>bobbing\<close>, with \<open>bobSide = 0.1\<close> and \<open>bobUp = 0.15\<close>\<close>
  "view_bobbing g yaw =
    (let headSin = sin (headTimer g * PI_F);
         headCos = cos (headTimer g * PI_F);
         bobSide = 1 / 10;
         bobUp = 15 / 100;
         bobbing = smul (view_right yaw) (headSin * bobSide)
     in bobbing\<lparr>vy := \<bar>headCos * bobUp\<bar>\<rparr>)"

definition camera_pose :: "game \<Rightarrow> vec3 \<Rightarrow> game" where
  \<comment> \<open>the three assignments to \<open>camUp\<close>, \<open>camPosition\<close> and \<open>camTarget\<close>\<close>
  "camera_pose g yaw =
     g\<lparr>cameraUp := view_up g yaw,
       cameraPosition := vadd (cameraPosition g) (smul (view_bobbing g yaw) (walkLerp g)),
       cameraTarget := vadd (vadd (cameraPosition g) (smul (view_bobbing g yaw) (walkLerp g)))
                            (view_pitch g yaw)\<rparr>"

definition UpdateCameraFPS :: "game \<Rightarrow> game option" where
  "UpdateCameraFPS g0 =
    (let yaw = view_yaw g0
     in case VecAngle world_up yaw of
          None \<Rightarrow> None
        | Some angleUp \<Rightarrow>
           (let g = g0\<lparr>lookRotation := clamp_view_up (lookRotation g0) angleUp\<rparr>
            in case VecAngle (VecNeg world_up) yaw of
                 None \<Rightarrow> None
               | Some angleDown \<Rightarrow>
                  (let g = g\<lparr>lookRotation := clamp_view_down (lookRotation g) angleDown\<rparr>
                   in Some (camera_pose g yaw))))"

text \<open>
  One iteration of the loop of \<^verbatim>\<open>main\<close>, without the drawing. Its groups of statements
  are the functions below; \<open>frame_update\<close> is the part before the call of
  \<^verbatim>\<open>UpdateCameraFPS\<close>, \<open>tick\<close> the whole iteration.
\<close>

definition mouse_look :: "game \<Rightarrow> frame_input \<Rightarrow> game" where
  \<comment> \<open>the cursor delta since the last frame, accumulated into \<open>lookRotation\<close>\<close>
  "mouse_look g0 inp =
    (let g = (if firstMouse g0
              then g0\<lparr>lastMouseX := mx inp, lastMouseY := my inp, firstMouse := False\<rparr> else g0);
         dx = mx inp - lastMouseX g;
         dy = my inp - lastMouseY g
     in g\<lparr>lastMouseX := mx inp, lastMouseY := my inp,
           lookRotation := accumulate_look (lookRotation g) dx dy\<rparr>)"

definition sideway_of :: "frame_input \<Rightarrow> int" where
  "sideway_of inp = (if KEY_D inp then 1 else 0) - (if KEY_A inp then 1 else 0)"

definition forward_of :: "frame_input \<Rightarrow> int" where
  "forward_of inp = (if KEY_W inp then 1 else 0) - (if KEY_S inp then 1 else 0)"

definition jumpPressed_of :: "game \<Rightarrow> frame_input \<Rightarrow> bool" where
  \<comment> \<open>\<^verbatim>\<open>bool jumpPressed = (!prevSpace && spaceNow);\<close>\<close>
  "jumpPressed_of g inp = (\<not> prevSpace g \<and> KEY_SPACE inp)"

definition move_player :: "game \<Rightarrow> frame_input \<Rightarrow> real \<Rightarrow> game" where
  \<comment> \<open>the key states, the jump edge and the call of \<^verbatim>\<open>UpdateBody\<close>\<close>
  "move_player g inp delta =
    (let jumpPressed = jumpPressed_of g inp
     in g\<lparr>prevSpace := KEY_SPACE inp,
           player := UpdateBody (player g) (v2x (lookRotation g)) (sideway_of inp) (forward_of inp)
                       jumpPressed (KEY_LEFT_CONTROL inp) delta\<rparr>)"

definition head_update :: "game \<Rightarrow> frame_input \<Rightarrow> real \<Rightarrow> game" where
  \<comment> \<open>\<open>headLerp\<close>, then \<open>headTimer\<close>, \<open>walkLerp\<close> and \<open>cameraFovy\<close>\<close>
  "head_update g0 inp delta =
    (let g = g0\<lparr>headLerp := mix (headLerp g0)
                                (if KEY_LEFT_CONTROL inp then CROUCH_HEIGHT else STAND_HEIGHT)
                                (clampf (20 * delta) 0 1)\<rparr>
     in if isGrounded (player g) \<and> (forward_of inp \<noteq> 0 \<or> sideway_of inp \<noteq> 0)
        then g\<lparr>headTimer := headTimer g + delta * 3,
                walkLerp := mix (walkLerp g) 1 (clampf (10 * delta) 0 1),
                cameraFovy := mix (cameraFovy g) 55 (clampf (5 * delta) 0 1)\<rparr>
        else g\<lparr>walkLerp := mix (walkLerp g) 0 (clampf (10 * delta) 0 1),
                cameraFovy := mix (cameraFovy g) 60 (clampf (5 * delta) 0 1)\<rparr>)"

definition lean_update :: "game \<Rightarrow> frame_input \<Rightarrow> real \<Rightarrow> game" where
  "lean_update g inp delta =
     g\<lparr>lean := \<lparr>v2x = mix (v2x (lean g)) (real_of_int (sideway_of inp) * (2 / 100))
                          (clampf (10 * delta) 0 1),
                 v2y = mix (v2y (lean g)) (real_of_int (forward_of inp) * (15 / 1000))
                          (clampf (10 * delta) 0 1)\<rparr>\<rparr>"

definition place_camera :: "game \<Rightarrow> game" where
  \<comment> \<open>\<open>cameraPosition\<close> is set to the eye point before the bob is added; the source
      assigns it twice, and only the second assignment is read\<close>
  "place_camera g =
     g\<lparr>cameraPosition := \<lparr>vx = vx (position (player g)),
                           vy = vy (position (player g)) + (BOTTOM_HEIGHT + headLerp g),
                           vz = vz (position (player g))\<rparr>\<rparr>"

definition frame_delta :: "game \<Rightarrow> frame_input \<Rightarrow> real" where
  \<comment> \<open>the \<open>delta\<close> of this iteration\<close>
  "frame_delta g inp = fst (getDeltaSeconds (prev g) (now inp))"

definition frame_update :: "game \<Rightarrow> frame_input \<Rightarrow> game" where
  "frame_update g inp =
    (let delta = frame_delta g inp;
         g = g\<lparr>prev := snd (getDeltaSeconds (prev g) (now inp))\<rparr>;
         g = mouse_look g inp;
         g = move_player g inp delta;
         g = head_update g inp delta;
         g = lean_update g inp delta
     in place_camera g)"

definition tick :: "game \<Rightarrow> frame_input \<Rightarrow> game option" where
  "tick g inp = UpdateCameraFPS (frame_update g inp)"

fun run :: "game \<Rightarrow> frame_input list \<Rightarrow> game option" where
  "run g [] = Some g"
| "run g (inp # inps) = (case tick g inp of None \<Rightarrow> None | Some g' \<Rightarrow> run g' inps)"

section \<open>Single-precision rounding of the pointer accumulation\<close>

text \<open>
  The two statements that accumulate the pointer delta are also modelled with their
  roundings. \<open>rnd p x\<close> is \<open>x\<close> rounded to the nearest number with a significand of \<open>p\<close>
  bits, ties to the even significand: \<open>p = 24\<close> is \<^verbatim>\<open>float\<close> (binary32), \<open>p = 53\<close> is
  \<^verbatim>\<open>double\<close> (binary64). The exponent range is not bounded, so overflow and subnormal
  numbers stay outside the model. In \<^verbatim>\<open>lookRotation.x -= (float)(dx * sensitivity.x)\<close> the
  cursor delta \<open>dx\<close> is a \<^verbatim>\<open>double\<close>: \<open>sensitivity.x\<close>, the \<^verbatim>\<open>float\<close> nearest to 0.001, is
  converted to \<^verbatim>\<open>double\<close> without change, the product is rounded to \<^verbatim>\<open>double\<close>, the cast
  rounds it to \<^verbatim>\<open>float\<close>, and the subtraction is rounded to \<^verbatim>\<open>float\<close>.
\<close>

definition round_even :: "real \<Rightarrow> int" where
  \<comment> \<open>the nearest integer, a tie going to the even one\<close>
  "round_even q =
    (let f = \<lfloor>q\<rfloor>; r = q - of_int f
     in if r < 1 / 2 then f else if 1 / 2 < r then f + 1 else if even f then f else f + 1)"

definition rnd :: "nat \<Rightarrow> real \<Rightarrow> real" where
  \<comment> \<open>\<open>e\<close> is the binary exponent of \<open>x\<close>, \<open>u\<close> the spacing of the \<open>p\<close>-bit numbers around \<open>x\<close>\<close>
  "rnd p x =
    (if x = 0 then 0
     else let e = \<lfloor>log 2 \<bar>x\<bar>\<rfloor>; u = 2 powr (of_int e - (real p - 1))
          in of_int (round_even (x / u)) * u)"

definition sensitivity_f32 :: vec2 where
  \<comment> \<open>\<^verbatim>\<open>glm::vec2(0.001f, 0.001f)\<close>\<close>
  "sensitivity_f32 = \<lparr>v2x = rnd 24 (1 / 1000), v2y = rnd 24 (1 / 1000)\<rparr>"

definition accumulate_look_f32 :: "vec2 \<Rightarrow> real \<Rightarrow> real \<Rightarrow> vec2" where
  \<comment> \<open>\<^verbatim>\<open>lookRotation.x -= (float)(dx * sensitivity.x); lookRotation.y += (float)(dy * sensitivity.y);\<close>\<close>
  "accumulate_look_f32 lr dx dy =
    (let lr = lr\<lparr>v2x := rnd 24 (v2x lr - rnd 24 (rnd 53 (dx * v2x sensitivity_f32)))\<rparr>
     in lr\<lparr>v2y := rnd 24 (v2y lr + rnd 24 (rnd 53 (dy * v2y sensitivity_f32)))\<rparr>)"

section \<open>Quantities named in the properties\<close>

definition velocity_len :: "Body \<Rightarrow> real" where
  \<comment> \<open>the speed the loop prints: \<^verbatim>\<open>glm::length(glm::vec2(velocity.x, velocity.z))\<close>\<close>
  "velocity_len b = sqrt (vx (velocity b) * vx (velocity b) + vz (velocity b) * vz (velocity b))"

definition pitch_eps :: real where
  "pitch_eps = 1 / 20000"

fun walk_forward :: "real \<Rightarrow> nat \<Rightarrow> Body" where
  \<comment> \<open>the body after \<open>n\<close> steps from rest with \<open>forward = 1\<close>, \<open>side = 0\<close>, no jump, no crouch,
      \<open>delta = 1/60\<close> and a fixed yaw\<close>
  "walk_forward yaw 0 = Body_init"
| "walk_forward yaw (Suc n) = UpdateBody (walk_forward yaw n) yaw 0 1 False False (1 / 60)"

definition forward_speed :: "nat \<Rightarrow> real" where
  \<comment> \<open>the solution of \<open>s 0 = 0\<close>, \<open>s (n + 1) = FRICTION * s n + MAX_ACCEL/60 * (1 - (3/4)^(n + 1))\<close>\<close>
  "forward_speed n = 125 / 7 + 375 / 22 * (3 / 4) ^ n - 5375 / 154 * (43 / 50) ^ n"



definition frame_W :: "real \<Rightarrow> frame_input" where
  \<comment> \<open>an iteration at clock \<open>t\<close> with only the W key down and the cursor at the origin\<close>
  "frame_W t = \<lparr>now = t, mx = 0, my = 0, KEY_D = False, KEY_A = False, KEY_W = True,
                KEY_S = False, KEY_LEFT_CONTROL = False, KEY_SPACE = False\<rparr>"

definition frame_SPACE :: "real \<Rightarrow> frame_input" where
  \<comment> \<open>an iteration at clock \<open>t\<close> with only the space key down and the cursor at the origin\<close>
  "frame_SPACE t = \<lparr>now = t, mx = 0, my = 0, KEY_D = False, KEY_A = False, KEY_W = False,
                    KEY_S = False, KEY_LEFT_CONTROL = False, KEY_SPACE = True\<rparr>"

section \<open>Stage lemmas for the body\<close>

lemmas stage_defs =
  apply_gravity_def apply_jump_def steer_def accelerate_def integrate_def ground_clamp_def

lemma ground_clamp_simps [simp]:
  "vx (velocity (ground_clamp b)) = vx (velocity b)"
  "vz (velocity (ground_clamp b)) = vz (velocity b)"
  "dir (ground_clamp b) = dir b"
  by (simp_all add: ground_clamp_def)

lemma integrate_simps [simp]:
  "velocity (integrate b dt) = velocity b"
  "dir (integrate b dt) = dir b"
  "isGrounded (integrate b dt) = isGrounded b"
  by (simp_all add: integrate_def)

lemma steer_simps [simp]:
  "velocity (steer b d dt) = velocity b"
  "isGrounded (steer b d dt) = isGrounded b"
  "position (steer b d dt) = position b"
  "dir (steer b d dt) = mix3 (dir b) d (clampf (CONTROL * dt) 0 1)"
  by (simp_all add: steer_def)

lemma decayed_hvel_steer [simp]: "decayed_hvel (steer b d dt) = decayed_hvel b"
  by (simp add: decayed_hvel_def)

lemma accelerate_simps [simp]:
  "dir (accelerate b c dt) = dir b"
  "isGrounded (accelerate b c dt) = isGrounded b"
  "position (accelerate b c dt) = position b"
  "vy (velocity (accelerate b c dt)) = vy (velocity b)"
  "vx (velocity (accelerate b c dt))
     = vx (decayed_hvel b) + vx (dir b) * accel_of (decayed_hvel b) (dir b) c dt"
  "vz (velocity (accelerate b c dt))
     = vz (decayed_hvel b) + vz (dir b) * accel_of (decayed_hvel b) (dir b) c dt"
  by (simp_all add: accelerate_def Let_def)

lemma apply_jump_simps [simp]:
  "dir (apply_jump b j) = dir b"
  "position (apply_jump b j) = position b"
  "vx (velocity (apply_jump b j)) = vx (velocity b)"
  "vz (velocity (apply_jump b j)) = vz (velocity b)"
  by (simp_all add: apply_jump_def)

lemma apply_gravity_simps [simp]:
  "dir (apply_gravity b dt) = dir b"
  "position (apply_gravity b dt) = position b"
  "isGrounded (apply_gravity b dt) = isGrounded b"
  "vx (velocity (apply_gravity b dt)) = vx (velocity b)"
  "vz (velocity (apply_gravity b dt)) = vz (velocity b)"
  by (simp_all add: apply_gravity_def)

lemma UpdateBody_height: "0 \<le> vy (position (UpdateBody b rot s f j c dt))"
  by (simp add: UpdateBody_def stage_defs Let_def)

lemma UpdateBody_grounded_vy:
  assumes "isGrounded b \<longrightarrow> vy (velocity b) = 0"
    and "isGrounded (UpdateBody b rot s f j c dt)"
  shows "vy (velocity (UpdateBody b rot s f j c dt)) = 0"
  using assms by (auto simp add: UpdateBody_def stage_defs Let_def split: if_splits)

lemma UpdateBody_keeps_grounded:
  "isGrounded b \<Longrightarrow> isGrounded (UpdateBody b rot s f False c dt)"
  by (simp add: UpdateBody_def stage_defs Let_def)

lemma UpdateBody_rest_frame:
  assumes "isGrounded b" "vy (velocity b) = 0" "0 \<le> vy (position b)"
  shows "vy (position (UpdateBody b rot s f False c dt)) = vy (position b)"
    and "vy (velocity (UpdateBody b rot s f False c dt)) = vy (velocity b)"
    and "isGrounded (UpdateBody b rot s f False c dt) = isGrounded b"
  using assms by (auto simp add: UpdateBody_def stage_defs Let_def split: if_splits)

section \<open>Acceleration along the facing direction\<close>

lemma accel_of_eq:
  "accel_of hvel d c dt
     = min (max ((if c then CROUCH_SPEED else MAX_SPEED)
                   - (vx hvel * vx d + vy hvel * vy d + vz hvel * vz d)) 0) (MAX_ACCEL * dt)"
  by (simp add: accel_of_def Let_def clampf_def dot_def)


lemma UpdateBody_dir:
  "dir (UpdateBody b rot s f j c dt)
     = \<lparr>vx = vx (dir b) * (1 - min (max (CONTROL * dt) 0) 1)
               + vx (desiredDir_of rot s f) * min (max (CONTROL * dt) 0) 1,
        vy = vy (dir b) * (1 - min (max (CONTROL * dt) 0) 1)
               + vy (desiredDir_of rot s f) * min (max (CONTROL * dt) 0) 1,
        vz = vz (dir b) * (1 - min (max (CONTROL * dt) 0) 1)
               + vz (desiredDir_of rot s f) * min (max (CONTROL * dt) 0) 1\<rparr>"
proof -
  have "dir (UpdateBody b rot s f j c dt)
          = mix3 (dir b) (desiredDir_of rot s f) (clampf (CONTROL * dt) 0 1)"
    by (simp add: UpdateBody_def Let_def)
  then show ?thesis by (simp only: mix3_def mix_def clampf_def)
qed

lemma mix_fixed:
  fixes a d t :: real
  assumes "t < 1" "a * (1 - t) + d * t = d"
  shows "a = d"
proof -
  have "(a - d) * (1 - t) = 0" using assms(2) by (simp add: algebra_simps)
  then show ?thesis using assms(1) by simp
qed

lemma UpdateBody_dir_lags:
  assumes "CONTROL * dt < 1" "dir b \<noteq> desiredDir_of rot s f"
  shows "dir (UpdateBody b rot s f j c dt) \<noteq> desiredDir_of rot s f"
proof
  define t where "t = min (max (CONTROL * dt) 0) 1"
  define d where "d = desiredDir_of rot s f"
  assume "dir (UpdateBody b rot s f j c dt) = desiredDir_of rot s f"
  then have e: "\<lparr>vx = vx (dir b) * (1 - t) + vx d * t, vy = vy (dir b) * (1 - t) + vy d * t,
                 vz = vz (dir b) * (1 - t) + vz d * t\<rparr> = d"
    unfolding UpdateBody_dir t_def d_def .
  have t: "t < 1" unfolding t_def using assms(1) by simp
  have "vx (dir b) * (1 - t) + vx d * t = vx d"
    using arg_cong [OF e, of vx] by (simp only: vec3.select_convs)
  then have x: "vx (dir b) = vx d" by (rule mix_fixed [OF t])
  have "vy (dir b) * (1 - t) + vy d * t = vy d"
    using arg_cong [OF e, of vy] by (simp only: vec3.select_convs)
  then have y: "vy (dir b) = vy d" by (rule mix_fixed [OF t])
  have "vz (dir b) * (1 - t) + vz d * t = vz d"
    using arg_cong [OF e, of vz] by (simp only: vec3.select_convs)
  then have z: "vz (dir b) = vz d" by (rule mix_fixed [OF t])
  have "dir b = d" using x y z by (intro vec3.equality) simp_all
  then show False using assms(2) by (simp add: d_def)
qed

lemma UpdateBody_hvel:
  "vx (velocity (UpdateBody b rot s f j c dt))
     = vx (decayed_hvel (apply_jump (apply_gravity b dt) j))
       + vx (dir (UpdateBody b rot s f j c dt))
         * accel_of (decayed_hvel (apply_jump (apply_gravity b dt) j))
             (dir (UpdateBody b rot s f j c dt)) c dt"
  "vz (velocity (UpdateBody b rot s f j c dt))
     = vz (decayed_hvel (apply_jump (apply_gravity b dt) j))
       + vz (dir (UpdateBody b rot s f j c dt))
         * accel_of (decayed_hvel (apply_jump (apply_gravity b dt) j))
             (dir (UpdateBody b rot s f j c dt)) c dt"
  by (simp_all add: UpdateBody_def Let_def)

lemma accel_step:
  assumes t: "t = min (max (CONTROL * dt) 0) 1"
    and fd: "facingDir = \<lparr>vx = vx (dir b) * (1 - t) + vx (desiredDir_of rot s f) * t,
                     vy = vy (dir b) * (1 - t) + vy (desiredDir_of rot s f) * t,
                     vz = vz (dir b) * (1 - t) + vz (desiredDir_of rot s f) * t\<rparr>"
    and decel: "decel = (if isGrounded b \<and> \<not> j then FRICTION else AIR_DRAG)"
    and hx: "hx = vx (velocity b) * decel"
    and hz: "hz = vz (velocity b) * decel"
    and stop: "stop = (sqrt (hx * hx + hz * hz) < MAX_SPEED * (1 / 100))"
    and hvelx: "hvelx = (if stop then 0 else hx)"
    and hvelz: "hvelz = (if stop then 0 else hz)"
    and speed: "speed = hvelx * vx facingDir + hvelz * vz facingDir"
    and targetMax: "targetMax = (if c then CROUCH_SPEED else MAX_SPEED)"
    and accel: "accel = min (max (targetMax - speed) 0) (MAX_ACCEL * dt)"
  shows "dir (UpdateBody b rot s f j c dt) = facingDir
       \<and> vx (velocity (UpdateBody b rot s f j c dt)) = hvelx + vx facingDir * accel
       \<and> vz (velocity (UpdateBody b rot s f j c dt)) = hvelz + vz facingDir * accel
       \<and> (0 \<le> dt \<longrightarrow> 0 \<le> accel \<and> accel \<le> MAX_ACCEL * dt)
       \<and> (targetMax - speed \<le> 0 \<longrightarrow> accel \<le> 0)
       \<and> (CONTROL * dt < 1 \<and> dir b \<noteq> desiredDir_of rot s f \<longrightarrow>
            facingDir \<noteq> desiredDir_of rot s f)"
proof -
  let ?b1 = "apply_jump (apply_gravity b dt) j"
  let ?U = "UpdateBody b rot s f j c dt"
  have g: "isGrounded ?b1 = (isGrounded b \<and> \<not> j)"
    by (simp add: apply_jump_def apply_gravity_def)
  have d: "dir ?U = facingDir" unfolding fd t by (rule UpdateBody_dir)
  have hv: "vx (decayed_hvel ?b1) = hvelx" "vz (decayed_hvel ?b1) = hvelz" "vy (decayed_hvel ?b1) = 0"
    unfolding hvelx hvelz stop hx hz decel
    by (simp_all add: decayed_hvel_def Let_def glm_length_def dot_def vec3_of_def g)
  have ac: "accel_of (decayed_hvel ?b1) facingDir c dt = accel"
    unfolding accel_of_eq hv accel targetMax speed by simp
  have v: "vx (velocity ?U) = hvelx + vx facingDir * accel"
    "vz (velocity ?U) = hvelz + vz facingDir * accel"
    using UpdateBody_hvel [of b rot s f j c dt] unfolding d ac hv by simp_all
  have m: "0 \<le> dt \<longrightarrow> 0 \<le> accel \<and> accel \<le> MAX_ACCEL * dt"
    unfolding accel by (simp add: MAX_ACCEL_def)
  have n: "targetMax - speed \<le> 0 \<longrightarrow> accel \<le> 0"
    unfolding accel by (simp add: min_le_iff_disj)
  have l: "CONTROL * dt < 1 \<and> dir b \<noteq> desiredDir_of rot s f \<longrightarrow> facingDir \<noteq> desiredDir_of rot s f"
    using UpdateBody_dir_lags [of dt b rot s f j c] unfolding d by blast
  show ?thesis by (intro conjI) (rule d v m n l)+
qed

text \<open>
  C6: with \<open>facingDir\<close> the old \<open>dir\<close> moved towards the desired direction by the factor
  \<open>clamp(CONTROL*dt, 0, 1)\<close>, \<open>hvel\<close> the horizontal velocity after the decel factor and
  the small-speed cut-off, \<open>speed\<close> the dot product of \<open>hvel\<close> and \<open>facingDir\<close>, and
  \<open>targetMax\<close> equal to \<open>CROUCH_SPEED\<close> when crouching and to \<open>MAX_SPEED\<close> otherwise, the
  step leaves \<open>dir = facingDir\<close> and the horizontal velocity \<open>hvel + accel * facingDir\<close>
  where \<open>accel = min (max (targetMax - speed) 0) (MAX_ACCEL*dt)\<close>. For \<open>dt \<ge> 0\<close> the
  acceleration lies between 0 and \<open>MAX_ACCEL*dt\<close>, and it is 0 when \<open>speed\<close> has reached
  \<open>targetMax\<close>. \<open>facingDir\<close> is the smoothed direction, not the raw input direction: while
  \<open>CONTROL*dt < 1\<close> it differs from the desired direction whenever the old \<open>dir\<close> did.
\<close>

theorem UpdateBody_acceleration:
  "(let t = min (max (CONTROL * dt) 0) 1;
        facingDir = \<lparr>vx = vx (dir b) * (1 - t) + vx (desiredDir_of rot s f) * t,
                     vy = vy (dir b) * (1 - t) + vy (desiredDir_of rot s f) * t,
                     vz = vz (dir b) * (1 - t) + vz (desiredDir_of rot s f) * t\<rparr>;
        decel = (if isGrounded b \<and> \<not> j then FRICTION else AIR_DRAG);
        hx = vx (velocity b) * decel;
        hz = vz (velocity b) * decel;
        stop = (sqrt (hx * hx + hz * hz) < MAX_SPEED * (1 / 100));
        hvelx = (if stop then 0 else hx);
        hvelz = (if stop then 0 else hz);
        speed = hvelx * vx facingDir + hvelz * vz facingDir;
        targetMax = (if c then CROUCH_SPEED else MAX_SPEED);
        accel = min (max (targetMax - speed) 0) (MAX_ACCEL * dt)
    in dir (UpdateBody b rot s f j c dt) = facingDir
       \<and> vx (velocity (UpdateBody b rot s f j c dt)) = hvelx + vx facingDir * accel
       \<and> vz (velocity (UpdateBody b rot s f j c dt)) = hvelz + vz facingDir * accel
       \<and> (0 \<le> dt \<longrightarrow> 0 \<le> accel \<and> accel \<le> MAX_ACCEL * dt)
       \<and> (targetMax - speed \<le> 0 \<longrightarrow> accel \<le> 0)
       \<and> (CONTROL * dt < 1 \<and> dir b \<noteq> desiredDir_of rot s f \<longrightarrow>
            facingDir \<noteq> desiredDir_of rot s f))"
  unfolding Let_def
  by (rule accel_step [OF refl refl refl refl refl refl refl refl refl refl refl])

theorem UpdateBody_acceleration_witness:
  "(0::real) \<le> 1 / 60 \<and> CONTROL * (1 / 60) < 1
   \<and> dir Body_init \<noteq> desiredDir_of 0 0 1
   \<and> dir (UpdateBody Body_init 0 0 1 False False (1 / 60)) = \<lparr>vx = 0, vy = 0, vz = - (1 / 4)\<rparr>
   \<and> vz (velocity (UpdateBody Body_init 0 0 1 False False (1 / 60))) = - (1 / 4) * (5 / 2)
   \<and> dir (UpdateBody Body_init 0 0 1 False False (1 / 60)) \<noteq> desiredDir_of 0 0 1"
  using UpdateBody_acceleration [where b = Body_init and rot = 0 and s = 0 and f = 1
      and j = False and c = False and dt = "1 / 60"]
  by (simp add: Let_def Body_init_def vec3_of_def desiredDir_of_def CONTROL_def MAX_SPEED_def
        MAX_ACCEL_def FRICTION_def)

section \<open>Angles\<close>

lemma normalize_up: "normalize \<lparr>vx = 0, vy = 1, vz = 0\<rparr> = \<lparr>vx = 0, vy = 1, vz = 0\<rparr>"
  by (simp add: normalize_def dot_def smul_def)

lemma sin_cos_sq: "sin a * sin a + cos a * cos a = (1::real)"
  using sin_cos_squared_add [of a] by (simp add: power2_eq_square)

lemma glm_length_horizontal:
  "glm_length \<lparr>vx = k * sin a, vy = 0, vz = k * cos a\<rparr> = \<bar>k\<bar>"
proof -
  have "(k * sin a) * (k * sin a) + (k * cos a) * (k * cos a)
        = k * k * (sin a * sin a + cos a * cos a)"
    by (simp only: algebra_simps)
  then have "(k * sin a) * (k * sin a) + (k * cos a) * (k * cos a) = k * k"
    by (simp only: sin_cos_sq mult_1_right)
  then show ?thesis by (simp add: glm_length_def dot_def)
qed

lemma glm_length_yaw: "glm_length \<lparr>vx = - sin a, vy = 0, vz = - cos a\<rparr> = 1"
  using glm_length_horizontal [of "- 1" a] by simp

lemma VecAngle_up_yaw:
  "VecAngle \<lparr>vx = 0, vy = 1, vz = 0\<rparr> \<lparr>vx = - sin a, vy = 0, vz = - cos a\<rparr> = Some (pi / 2)"
  "VecAngle (VecNeg \<lparr>vx = 0, vy = 1, vz = 0\<rparr>) \<lparr>vx = - sin a, vy = 0, vz = - cos a\<rparr>
     = Some (pi / 2)"
  by (simp_all add: VecAngle_def Let_def glm_length_yaw fdiv_def VecNeg_def clampf_def,
      simp_all add: glm_length_def dot_def)

text \<open>
  C9: \<open>VecAngle\<close> never divides by zero. For every pair of vectors its result is
  defined; when one of them has length zero the result is the angle 0; otherwise the
  division is carried out on a non-zero divisor and the argument of \<open>acos\<close> lies in
  \<open>[-1, 1]\<close>.
\<close>

theorem VecAngle_defined:
  "VecAngle a b \<noteq> None
   \<and> (glm_length a = 0 \<or> glm_length b = 0 \<longrightarrow> VecAngle a b = Some 0)
   \<and> (glm_length a \<noteq> 0 \<and> glm_length b \<noteq> 0 \<longrightarrow>
        (\<exists>d. fdiv (dot a b) (glm_length a * glm_length b) = Some d
            \<and> - 1 \<le> clampf d (- 1) 1 \<and> clampf d (- 1) 1 \<le> 1
            \<and> VecAngle a b = Some (arccos (clampf d (- 1) 1))))"
  by (auto simp add: VecAngle_def fdiv_def Let_def clampf_def)

theorem VecAngle_defined_witness:
  "glm_length \<lparr>vx = 0, vy = 0, vz = 0\<rparr> = 0
   \<and> VecAngle \<lparr>vx = 0, vy = 0, vz = 0\<rparr> \<lparr>vx = 0, vy = 1, vz = 0\<rparr> = Some 0
   \<and> glm_length \<lparr>vx = 0, vy = 1, vz = 0\<rparr> \<noteq> 0
   \<and> glm_length \<lparr>vx = 0, vy = 0, vz = - 1\<rparr> \<noteq> 0
   \<and> VecAngle \<lparr>vx = 0, vy = 1, vz = 0\<rparr> \<lparr>vx = 0, vy = 0, vz = - 1\<rparr> \<noteq> None
   \<and> VecAngle \<lparr>vx = 0, vy = 1, vz = 0\<rparr> \<lparr>vx = 0, vy = 0, vz = - 1\<rparr> = Some (pi / 2)"
  using VecAngle_defined [of "\<lparr>vx = 0, vy = 0, vz = 0\<rparr>" "\<lparr>vx = 0, vy = 1, vz = 0\<rparr>"]
        VecAngle_defined [of "\<lparr>vx = 0, vy = 1, vz = 0\<rparr>" "\<lparr>vx = 0, vy = 0, vz = - 1\<rparr>"]
  by (simp add: glm_length_def dot_def fdiv_def clampf_def)

section \<open>The camera update\<close>

lemma view_yaw_eq:
  "view_yaw g = \<lparr>vx = - sin (v2x (lookRotation g)), vy = 0, vz = - cos (v2x (lookRotation g))\<rparr>"
  by (simp add: view_yaw_def world_up_def RotateVecByAxisAngle_def normalize_up Let_def smul_def)

lemma VecAngle_view_yaw:
  "VecAngle world_up (view_yaw g) = Some (pi / 2)"
  "VecAngle (VecNeg world_up) (view_yaw g) = Some (pi / 2)"
  by (simp_all add: view_yaw_eq world_up_def VecAngle_up_yaw)

lemma clamp_view:
  "clamp_view_down (clamp_view_up lr (pi / 2)) (pi / 2)
     = lr\<lparr>v2y := clampf (v2y lr) (- (pi / 2 - 1 / 1000)) (pi / 2 - 1 / 1000)\<rparr>"
proof -
  have "1 / 1000 < pi / 2" using pi_ge_two by simp
  then show ?thesis
    by (simp add: clamp_view_up_def clamp_view_down_def Let_def clampf_def min_def max_def)
qed

lemma camera_pose_simps [simp]:
  "player (camera_pose g yaw) = player g"
  "lookRotation (camera_pose g yaw) = lookRotation g"
  "headTimer (camera_pose g yaw) = headTimer g"
  "walkLerp (camera_pose g yaw) = walkLerp g"
  "headLerp (camera_pose g yaw) = headLerp g"
  "lean (camera_pose g yaw) = lean g"
  "prevSpace (camera_pose g yaw) = prevSpace g"
  "prev (camera_pose g yaw) = prev g"
  "firstMouse (camera_pose g yaw) = firstMouse g"
  "lastMouseX (camera_pose g yaw) = lastMouseX g"
  "lastMouseY (camera_pose g yaw) = lastMouseY g"
  "cameraFovy (camera_pose g yaw) = cameraFovy g"
  by (simp_all add: camera_pose_def)

lemma UpdateCameraFPS_Some:
  "UpdateCameraFPS g =
     Some (camera_pose (g\<lparr>lookRotation := (lookRotation g)\<lparr>v2y :=
        clampf (v2y (lookRotation g)) (- (pi / 2 - 1 / 1000)) (pi / 2 - 1 / 1000)\<rparr>\<rparr>) (view_yaw g))"
  by (simp add: UpdateCameraFPS_def VecAngle_view_yaw Let_def clamp_view)

section \<open>Pointer motion\<close>

lemma mouse_look_simps [simp]:
  "player (mouse_look g inp) = player g"
  "prevSpace (mouse_look g inp) = prevSpace g"
  "headTimer (mouse_look g inp) = headTimer g"
  "lean (mouse_look g inp) = lean g"
  "prev (mouse_look g inp) = prev g"
  "lookRotation (mouse_look g inp)
     = accumulate_look (lookRotation g)
         (mx inp - (if firstMouse g then mx inp else lastMouseX g))
         (my inp - (if firstMouse g then my inp else lastMouseY g))"
  by (simp_all add: mouse_look_def Let_def)

lemma move_player_simps [simp]:
  "lookRotation (move_player g inp dt) = lookRotation g"
  "headTimer (move_player g inp dt) = headTimer g"
  "lean (move_player g inp dt) = lean g"
  "prevSpace (move_player g inp dt) = KEY_SPACE inp"
  "player (move_player g inp dt)
     = UpdateBody (player g) (v2x (lookRotation g)) (sideway_of inp) (forward_of inp)
         (jumpPressed_of g inp) (KEY_LEFT_CONTROL inp) dt"
  by (simp_all add: move_player_def Let_def)

lemma head_update_simps [simp]:
  "lookRotation (head_update g inp dt) = lookRotation g"
  "player (head_update g inp dt) = player g"
  "lean (head_update g inp dt) = lean g"
  "prevSpace (head_update g inp dt) = prevSpace g"
  "headTimer (head_update g inp dt)
     = (if isGrounded (player g) \<and> (forward_of inp \<noteq> 0 \<or> sideway_of inp \<noteq> 0)
        then headTimer g + dt * 3 else headTimer g)"
  by (auto simp add: head_update_def Let_def)

lemma lean_update_simps [simp]:
  "lookRotation (lean_update g inp dt) = lookRotation g"
  "player (lean_update g inp dt) = player g"
  "prevSpace (lean_update g inp dt) = prevSpace g"
  "headTimer (lean_update g inp dt) = headTimer g"
  by (simp_all add: lean_update_def)

lemma place_camera_simps [simp]:
  "lookRotation (place_camera g) = lookRotation g"
  "player (place_camera g) = player g"
  "prevSpace (place_camera g) = prevSpace g"
  "headTimer (place_camera g) = headTimer g"
  "lean (place_camera g) = lean g"
  by (simp_all add: place_camera_def)

lemma frame_update_simps:
  "lookRotation (frame_update g inp)
     = accumulate_look (lookRotation g)
         (mx inp - (if firstMouse g then mx inp else lastMouseX g))
         (my inp - (if firstMouse g then my inp else lastMouseY g))"
  "prevSpace (frame_update g inp) = KEY_SPACE inp"
  "player (frame_update g inp)
     = UpdateBody (player g) (v2x (lookRotation (frame_update g inp))) (sideway_of inp)
         (forward_of inp) (jumpPressed_of g inp) (KEY_LEFT_CONTROL inp) (frame_delta g inp)"
  "headTimer (frame_update g inp)
     = (if isGrounded (player (frame_update g inp)) \<and> (forward_of inp \<noteq> 0 \<or> sideway_of inp \<noteq> 0)
        then headTimer g + frame_delta g inp * 3 else headTimer g)"
  by (auto simp add: frame_update_def Let_def jumpPressed_of_def)

lemma tick_Some:
  "tick g inp =
     Some (camera_pose ((frame_update g inp)\<lparr>lookRotation := (lookRotation (frame_update g inp))\<lparr>v2y :=
        clampf (v2y (lookRotation (frame_update g inp))) (- (pi / 2 - 1 / 1000)) (pi / 2 - 1 / 1000)\<rparr>\<rparr>)
        (view_yaw (frame_update g inp)))"
  by (simp add: tick_def UpdateCameraFPS_Some)

section \<open>Pointer accumulation in single precision\<close>

lemma rnd_binade:
  assumes "2 powr of_int e \<le> \<bar>x\<bar>" "\<bar>x\<bar> < 2 powr (of_int e + 1)"
  shows "rnd p x = of_int (round_even (x / 2 powr (of_int e - (real p - 1))))
                     * 2 powr (of_int e - (real p - 1))"
proof -
  have x: "x \<noteq> 0"
  proof
    assume "x = 0"
    then have "(2::real) powr of_int e \<le> 0" using assms(1) by simp
    then show False by (simp add: not_le [symmetric])
  qed
  then have "0 < \<bar>x\<bar>" by simp
  then have "\<lfloor>log 2 \<bar>x\<bar>\<rfloor> = e"
    using floor_log_eq_powr_iff [of "\<bar>x\<bar>" 2 e] assms by simp
  then show ?thesis using x by (simp add: rnd_def Let_def)
qed

lemma rnd_small:
  assumes "1 / 2 ^ k \<le> \<bar>x\<bar>" "\<bar>x\<bar> < 2 / 2 ^ k" "0 < p"
  shows "rnd p x = of_int (round_even (x * 2 ^ (k + p - 1))) / 2 ^ (k + p - 1)"
proof -
  have pw: "(2::real) powr - real n = 1 / 2 ^ n" for n
    by (simp add: powr_minus powr_realpow field_simps)
  have a: "(2::real) powr of_int (- int k) = 1 / 2 ^ k"
    using pw [of k] by simp
  have "(2::real) powr (of_int (- int k) + 1) = 2 powr of_int (- int k) * 2 powr 1"
    by (rule powr_add)
  then have b: "(2::real) powr (of_int (- int k) + 1) = 2 / 2 ^ k"
    unfolding a by simp
  have "of_int (- int k) - (real p - 1) = - real (k + p - 1)"
    using assms(3) by (simp add: of_nat_diff)
  then have c: "(2::real) powr (of_int (- int k) - (real p - 1)) = 1 / 2 ^ (k + p - 1)"
    using pw [of "k + p - 1"] by simp
  show ?thesis
    using rnd_binade [of "- int k" x p] assms(1,2) unfolding a b c by simp
qed

lemma rnd_unit:
  assumes "1 \<le> \<bar>x\<bar>" "\<bar>x\<bar> < 2" "0 < p"
  shows "rnd p x = of_int (round_even (x * 2 ^ (p - 1))) / 2 ^ (p - 1)"
  using rnd_small [of 0 x p] assms by simp

lemma rnd_0 [simp]: "rnd p 0 = 0"
  by (simp add: rnd_def)

lemma sens_val: "rnd 24 (1 / 1000) = 8589935 / 2 ^ 33"
  using rnd_small [of 10 "1 / 1000" 24] by (simp add: round_even_def Let_def)

lemma acc_f32_x:
  "v2x (accumulate_look_f32 lr dx dy)
     = rnd 24 (v2x lr - rnd 24 (rnd 53 (dx * rnd 24 (1 / 1000))))"
  by (simp add: accumulate_look_f32_def Let_def sensitivity_f32_def)

lemma acc_f32_y:
  "v2y (accumulate_look_f32 lr dx dy)
     = rnd 24 (v2y lr + rnd 24 (rnd 53 (dy * rnd 24 (1 / 1000))))"
  by (simp add: accumulate_look_f32_def Let_def sensitivity_f32_def)

lemma sub_1000: "rnd 24 (rnd 53 (1000 * rnd 24 (1 / 1000))) = 1"
proof -
  have a: "rnd 53 (1000 * (8589935 / 2 ^ 33)) = 1000 * (8589935 / 2 ^ 33)"
    using rnd_unit [of "1000 * (8589935 / 2 ^ 33)" 53] by (simp add: round_even_def Let_def)
  have b: "rnd 24 (1000 * (8589935 / 2 ^ 33)) = 1"
    using rnd_unit [of "1000 * (8589935 / 2 ^ 33)" 24] by (simp add: round_even_def Let_def)
  show ?thesis unfolding sens_val a b ..
qed

lemma sub_100: "rnd 24 (rnd 53 (100 * rnd 24 (1 / 1000))) = 13421773 / 2 ^ 27"
proof -
  have a: "rnd 53 (100 * (8589935 / 2 ^ 33)) = 100 * (8589935 / 2 ^ 33)"
    using rnd_small [of 4 "100 * (8589935 / 2 ^ 33)" 53] by (simp add: round_even_def Let_def)
  have b: "rnd 24 (100 * (8589935 / 2 ^ 33)) = 13421773 / 2 ^ 27"
    using rnd_small [of 4 "100 * (8589935 / 2 ^ 33)" 24] by (simp add: round_even_def Let_def)
  show ?thesis unfolding sens_val a b ..
qed

lemma acc_1000:
  "v2x (accumulate_look_f32 lr 1000 0) = rnd 24 (v2x lr - 1)"
  "v2y (accumulate_look_f32 lr 1000 0) = rnd 24 (v2y lr)"
  unfolding acc_f32_x acc_f32_y sub_1000 by simp_all

lemma yaw_100:
  "v2x (accumulate_look_f32 \<lparr>v2x = 0, v2y = 0\<rparr> 100 0) = - (13421773 / 2 ^ 27)"
proof -
  have "rnd 24 (- (13421773 / 2 ^ 27)) = - (13421773 / 2 ^ 27)"
    using rnd_small [of 4 "- (13421773 / 2 ^ 27)" 24] by (simp add: round_even_def Let_def)
  then show ?thesis unfolding acc_f32_x sub_100 by simp
qed

lemma yaw_after: "rnd 24 (- (13421773 / 2 ^ 27) - 1) = - (9227469 / 2 ^ 23)"
  using rnd_unit [of "- (13421773 / 2 ^ 27) - 1" 24] by (simp add: round_even_def Let_def)

lemma round_even_near: "\<bar>of_int (round_even q) - q\<bar> \<le> 1 / 2"
proof -
  have "of_int \<lfloor>q\<rfloor> \<le> q" "q < of_int \<lfloor>q\<rfloor> + 1" by linarith+
  then show ?thesis by (simp add: round_even_def Let_def)
qed

lemma rnd_error:
  assumes "0 < p"
  shows "\<bar>rnd p x - x\<bar> \<le> \<bar>x\<bar> / 2 ^ p"
proof (cases "x = 0")
  case True
  then show ?thesis by simp
next
  case False
  define e where "e = \<lfloor>log 2 \<bar>x\<bar>\<rfloor>"
  define u where "u = (2::real) powr (of_int e - (real p - 1))"
  have u: "0 < u" by (simp add: u_def)
  have r: "rnd p x = of_int (round_even (x / u)) * u"
    using False by (simp add: rnd_def Let_def e_def u_def)
  have "2 powr of_int e \<le> \<bar>x\<bar>"
    using floor_log_eq_powr_iff [of "\<bar>x\<bar>" 2 e] False by (simp add: e_def)
  moreover have "(2::real) powr of_int e = u * 2 ^ (p - 1)"
  proof -
    have "(2::real) powr of_int e = 2 powr (of_int e - (real p - 1)) * 2 powr (real p - 1)"
      by (simp add: powr_add [symmetric])
    moreover have "real p - 1 = real (p - 1)" using assms by (simp add: of_nat_diff)
    moreover have "(2::real) powr real (p - 1) = 2 ^ (p - 1)" by (simp add: powr_realpow)
    ultimately show ?thesis unfolding u_def by (simp only:)
  qed
  ultimately have ux: "u * 2 ^ (p - 1) \<le> \<bar>x\<bar>" by simp
  have "rnd p x - x = (of_int (round_even (x / u)) - x / u) * u"
    using u by (simp add: r field_simps)
  then have "\<bar>rnd p x - x\<bar> = \<bar>of_int (round_even (x / u)) - x / u\<bar> * u"
    using u by (simp add: abs_mult)
  also have "\<dots> \<le> 1 / 2 * u"
    using u round_even_near [of "x / u"] by (intro mult_right_mono) simp_all
  also have "\<dots> = u * 2 ^ (p - 1) / 2 ^ p"
  proof -
    have "(2::real) ^ p = 2 * 2 ^ (p - 1)" using assms by (cases p) simp_all
    then show ?thesis by simp
  qed
  also have "\<dots> \<le> \<bar>x\<bar> / 2 ^ p"
    using ux by (simp add: divide_right_mono)
  finally show ?thesis .
qed

text \<open>
  C8, as stated, at the yaw reached from the initial yaw 0 by one iteration with the
  pointer delta \<open>(100, 0)\<close>, which is \<open>-0.1f = -13421773/2^27\<close>: on the next iteration,
  with the pointer delta \<open>(1000, 0)\<close>, \<open>yaw - 1\<close> is not a \<^verbatim>\<open>float\<close> and is rounded to
  \<open>-9227469/2^23\<close>, so the yaw changes by \<open>-134217731/2^27\<close>, which is not \<open>-1\<close>.
\<close>

theorem C8_counterexample:
  "v2x (accumulate_look_f32 (accumulate_look_f32 \<lparr>v2x = 0, v2y = 0\<rparr> 100 0) 1000 0)
     - v2x (accumulate_look_f32 \<lparr>v2x = 0, v2y = 0\<rparr> 100 0) \<noteq> - 1
   \<and> v2x (accumulate_look_f32 (accumulate_look_f32 \<lparr>v2x = 0, v2y = 0\<rparr> 100 0) 1000 0)
     - v2x (accumulate_look_f32 \<lparr>v2x = 0, v2y = 0\<rparr> 100 0) = - (134217731 / 2 ^ 27)"
  unfolding acc_1000 unfolding yaw_100 yaw_after by simp

text \<open>
  C8, amended: with the sensitivity \<open>(0.001f, 0.001f)\<close> and the pointer delta \<open>(1000, 0)\<close>
  the amount subtracted from the yaw is exactly 1, because \<open>1000 * 0.001f\<close> rounds to
  \<open>1.0f\<close>; the new yaw is the \<^verbatim>\<open>float\<close> nearest to \<open>yaw - 1\<close>. So the yaw changes by \<open>-1\<close>
  up to that one rounding, which is at most \<open>2^-24\<close> times \<open>|yaw - 1|\<close>, and by exactly
  \<open>-1\<close> whenever \<open>yaw - 1\<close> is a \<^verbatim>\<open>float\<close>, as it is from the initial yaw 0. The pitch is
  unchanged whenever it is a \<^verbatim>\<open>float\<close>. The accumulation adds \<open>-(float)(dx * sensitivity.x)\<close>
  to the yaw and \<open>(float)(dy * sensitivity.y)\<close> to the pitch.
\<close>

theorem look_accumulation:
  "v2x (accumulate_look_f32 lr dx dy)
     = rnd 24 (v2x lr - rnd 24 (rnd 53 (dx * v2x sensitivity_f32)))
   \<and> v2y (accumulate_look_f32 lr dx dy)
     = rnd 24 (v2y lr + rnd 24 (rnd 53 (dy * v2y sensitivity_f32)))
   \<and> rnd 24 (rnd 53 (1000 * v2x sensitivity_f32)) = 1
   \<and> v2x (accumulate_look_f32 lr 1000 0) = rnd 24 (v2x lr - 1)
   \<and> v2y (accumulate_look_f32 lr 1000 0) = rnd 24 (v2y lr)
   \<and> \<bar>v2x (accumulate_look_f32 lr 1000 0) - v2x lr - (- 1)\<bar> \<le> \<bar>v2x lr - 1\<bar> / 2 ^ 24
   \<and> (rnd 24 (v2x lr - 1) = v2x lr - 1 \<longrightarrow> v2x (accumulate_look_f32 lr 1000 0) - v2x lr = - 1)
   \<and> (rnd 24 (v2y lr) = v2y lr \<longrightarrow> v2y (accumulate_look_f32 lr 1000 0) = v2y lr)
   \<and> v2x (accumulate_look_f32 \<lparr>v2x = 0, v2y = 0\<rparr> 1000 0) = - 1"
proof -
  have s: "v2x sensitivity_f32 = rnd 24 (1 / 1000)" "v2y sensitivity_f32 = rnd 24 (1 / 1000)"
    by (simp_all add: sensitivity_f32_def)
  have e: "\<bar>rnd 24 (v2x lr - 1) - v2x lr - (- 1)\<bar> \<le> \<bar>v2x lr - 1\<bar> / 2 ^ 24"
    using rnd_error [of 24 "v2x lr - 1"] by (simp add: algebra_simps)
  have m: "rnd 24 (0 - 1) = - 1"
    using rnd_unit [of "- 1" 24] by (simp add: round_even_def Let_def)
  have z: "v2x (accumulate_look_f32 \<lparr>v2x = 0, v2y = 0\<rparr> 1000 0) = - 1"
    unfolding acc_1000 using m by simp
  show ?thesis
    unfolding s acc_1000 sub_1000 using e z acc_f32_x [of lr dx dy] acc_f32_y [of lr dx dy]
    unfolding acc_1000 by simp
qed

theorem look_accumulation_witness:
  "rnd 24 (v2x \<lparr>v2x = 0, v2y = 0\<rparr> - 1) = v2x \<lparr>v2x = 0, v2y = 0\<rparr> - 1
   \<and> rnd 24 (v2y \<lparr>v2x = 0, v2y = 0\<rparr>) = v2y \<lparr>v2x = 0, v2y = 0\<rparr>
   \<and> v2x (accumulate_look_f32 \<lparr>v2x = 0, v2y = 0\<rparr> 1000 0) - v2x \<lparr>v2x = 0, v2y = 0\<rparr> = - 1
   \<and> v2y (accumulate_look_f32 \<lparr>v2x = 0, v2y = 0\<rparr> 1000 0) = v2y \<lparr>v2x = 0, v2y = 0\<rparr>"
proof -
  have m: "rnd 24 (0 - 1) = - 1"
    using rnd_unit [of "- 1" 24] by (simp add: round_even_def Let_def)
  show ?thesis
    using look_accumulation [of "\<lparr>v2x = 0, v2y = 0\<rparr>" 0 0] m by simp
qed

section \<open>The pitch stays off the poles\<close>

lemma cos_lower_poly:
  fixes x :: real
  shows "(\<Sum>m<12. cos_coeff m * x ^ m) - \<bar>x\<bar> ^ 12 / fact 12 \<le> cos x"
proof -
  obtain t where t:
    "cos x = (\<Sum>m<12. cos_coeff m * x ^ m) + (cos (t + 1/2 * real 12 * pi) / fact 12) * x ^ 12"
    using Maclaurin_cos_expansion [of x 12] by blast
  have "\<bar>(cos (t + 1/2 * real 12 * pi) / fact 12) * x ^ 12\<bar> \<le> \<bar>x\<bar> ^ 12 / fact 12"
  proof -
    have "\<bar>(cos (t + 1/2 * real 12 * pi) / fact 12) * x ^ 12\<bar>
          = \<bar>cos (t + 1/2 * real 12 * pi)\<bar> * (\<bar>x\<bar> ^ 12 / fact 12)"
      by (simp add: abs_mult power_abs)
    also have "\<dots> \<le> 1 * (\<bar>x\<bar> ^ 12 / fact 12)"
      by (rule mult_right_mono) simp_all
    finally show ?thesis by simp
  qed
  with t show ?thesis by linarith
qed

lemma cos_poly12:
  fixes x :: real
  shows "(\<Sum>m<12. cos_coeff m * x ^ m)
    = 1 - x^2 / 2 + x^4 / 24 - x^6 / 720 + x^8 / 40320 - x^10 / 3628800"
proof -
  have "{..<12::nat} = {0, 1, 2, 3, 4, 5, 6, 7, 8, 9, 10, 11}"
    by (rule set_eqI, simp, arith)
  then show ?thesis
    by (simp add: cos_coeff_def fact_numeral)
qed

lemma cos_pos_at: "0 < cos (6283 / 4000 :: real)"
proof -
  have "0 < (\<Sum>m<12. cos_coeff m * (6283 / 4000 :: real) ^ m)
            - \<bar>6283 / 4000 :: real\<bar> ^ 12 / fact 12"
    unfolding cos_poly12 by (simp add: fact_numeral power_divide)
  then show ?thesis using cos_lower_poly [of "6283 / 4000"] by linarith
qed

lemma pi_gt_31415: "31415 / 10000 < pi"
proof -
  have "(6283 / 4000 :: real) < pi / 2"
  proof (rule ccontr)
    assume "\<not> (6283 / 4000 :: real) < pi / 2"
    then have h: "pi / 2 \<le> 6283 / 4000" by simp
    have "(6283 / 4000 :: real) \<le> pi" using pi_ge_two by linarith
    then have "cos (6283 / 4000 :: real) \<le> cos (pi / 2)"
      using h by (intro cos_monotone_0_pi_le) simp_all
    then show False using cos_pos_at by simp
  qed
  then show ?thesis by simp
qed

lemma clampf_bounds: "lo \<le> hi \<Longrightarrow> lo \<le> clampf x lo hi \<and> clampf x lo hi \<le> hi"
  by (simp add: clampf_def)

lemma pitchAngle_of_bounds:
  "- pi / 2 + pitch_eps < pitchAngle_of lr le0 \<and> pitchAngle_of lr le0 < pi / 2 - pitch_eps"
proof -
  have "- PI_F / 2 + 1 / 10000 \<le> PI_F / 2 - 1 / 10000" by (simp add: PI_F_def)
  then have "- PI_F / 2 + 1 / 10000 \<le> pitchAngle_of lr le0
             \<and> pitchAngle_of lr le0 \<le> PI_F / 2 - 1 / 10000"
    unfolding pitchAngle_of_def Let_def by (rule clampf_bounds)
  moreover have "PI_F < 31415 / 10000 + 1 / 10000" by (simp add: PI_F_def)
  ultimately show ?thesis using pi_gt_31415 by (simp add: pitch_eps_def)
qed

lemma view_right_eq:
  "view_right \<lparr>vx = - sin a, vy = 0, vz = - cos a\<rparr> = \<lparr>vx = cos a, vy = 0, vz = - sin a\<rparr>"
  by (simp add: view_right_def cross_def world_up_def normalize_def dot_def smul_def
        sin_cos_sq add.commute)

lemma rotate_about_right:
  assumes "s * s + c * c = (1::real)"
  shows "RotateVecByAxisAngle \<lparr>vx = - s, vy = 0, vz = - c\<rparr> \<lparr>vx = c, vy = 0, vz = - s\<rparr> p
    = \<lparr>vx = - s * cos p, vy = sin p, vz = - c * cos p\<rparr>"
proof -
  have n: "normalize \<lparr>vx = c, vy = 0, vz = - s\<rparr> = \<lparr>vx = c, vy = 0, vz = - s\<rparr>"
    using assms by (simp add: normalize_def dot_def smul_def add.commute)
  have 1: "(cos p + c * (1 - cos p) * c) * - s
           + (- s * (1 - cos p) * c + sin p * 0) * - c = - s * cos p"
    by algebra
  have 2: "(c * (1 - cos p) * 0 + sin p * - s) * - s
           + (- s * (1 - cos p) * 0 - sin p * c) * - c = sin p"
    using assms by algebra
  have 3: "(c * (1 - cos p) * - s - sin p * 0) * - s
           + (cos p + - s * (1 - cos p) * - s) * - c = - c * cos p"
    by algebra
  show ?thesis
    unfolding RotateVecByAxisAngle_def n Let_def smul_def
    using 1 2 3 by simp
qed

lemma view_pitch_eq:
  "view_pitch g (view_yaw g)
     = \<lparr>vx = - sin (v2x (lookRotation g)) * cos (pitchAngle_of (lookRotation g) (lean g)),
        vy = sin (pitchAngle_of (lookRotation g) (lean g)),
        vz = - cos (v2x (lookRotation g)) * cos (pitchAngle_of (lookRotation g) (lean g))\<rparr>"
  by (simp add: view_pitch_def view_yaw_eq view_right_eq rotate_about_right sin_cos_sq)

lemma run_total: "\<exists>g'. run g inps = Some g'"
  by (induction inps arbitrary: g) (simp_all add: tick_Some)

lemma tick_fields:
  assumes "tick g inp = Some g'"
  shows "player g' = player (frame_update g inp)"
    and "headTimer g' = headTimer (frame_update g inp)"
    and "prevSpace g' = KEY_SPACE inp"
    and "lean g' = lean (frame_update g inp)"
    and "v2x (lookRotation g') = v2x (lookRotation (frame_update g inp))"
    and "v2y (lookRotation g')
           = clampf (v2y (lookRotation (frame_update g inp))) (- (pi / 2 - 1 / 1000)) (pi / 2 - 1 / 1000)"
  using assms by (auto simp add: tick_Some frame_update_simps)

lemma tick_target:
  assumes "tick g inp = Some g'"
  shows "cameraTarget g' = vadd (cameraPosition g') (view_pitch g' (view_yaw g'))"
proof -
  let ?h = "(frame_update g inp)\<lparr>lookRotation := (lookRotation (frame_update g inp))\<lparr>v2y :=
        clampf (v2y (lookRotation (frame_update g inp))) (- (pi / 2 - 1 / 1000)) (pi / 2 - 1 / 1000)\<rparr>\<rparr>"
  have g': "g' = camera_pose ?h (view_yaw (frame_update g inp))"
    using assms by (simp add: tick_Some)
  have y: "view_yaw g' = view_yaw (frame_update g inp)"
    unfolding g' by (simp add: view_yaw_def)
  have p: "view_pitch g' (view_yaw (frame_update g inp)) = view_pitch ?h (view_yaw (frame_update g inp))"
    unfolding g' by (simp add: view_pitch_def)
  show ?thesis
    unfolding y p unfolding g' by (simp add: camera_pose_def)
qed

text \<open>
  C3: after every camera update, whatever iterations came before and however large the
  pointer delta of this one is, the pitch angle the camera uses lies strictly between
  \<open>-pi/2 + pitch_eps\<close> and \<open>pi/2 - pitch_eps\<close>, with \<open>pitch_eps = 1/20000\<close> and \<open>pi\<close> the
  real number. The look direction, \<open>cameraTarget - cameraPosition\<close>, is the unit vector
  of that pitch and the accumulated yaw, so it never points along the vertical axis;
  the stored pitch stays within \<open>pi/2 - 0.001\<close> of zero.
\<close>

theorem pitch_inside_poles:
  assumes "run g inps = Some g1" and "tick g1 inp = Some g2"
  shows "0 < pitch_eps
     \<and> - pi / 2 + pitch_eps < pitchAngle_of (lookRotation g2) (lean g2)
     \<and> pitchAngle_of (lookRotation g2) (lean g2) < pi / 2 - pitch_eps
     \<and> cameraTarget g2
         = vadd (cameraPosition g2)
             \<lparr>vx = - sin (v2x (lookRotation g2)) * cos (pitchAngle_of (lookRotation g2) (lean g2)),
              vy = sin (pitchAngle_of (lookRotation g2) (lean g2)),
              vz = - cos (v2x (lookRotation g2)) * cos (pitchAngle_of (lookRotation g2) (lean g2))\<rparr>
     \<and> \<bar>v2y (lookRotation g2)\<bar> \<le> pi / 2 - 1 / 1000"
proof -
  have "- (pi / 2 - 1 / 1000) \<le> pi / 2 - 1 / 1000" using pi_ge_two by simp
  then have "- (pi / 2 - 1 / 1000) \<le> v2y (lookRotation g2)
             \<and> v2y (lookRotation g2) \<le> pi / 2 - 1 / 1000"
    unfolding tick_fields(6) [OF assms(2)] by (rule clampf_bounds)
  then have "\<bar>v2y (lookRotation g2)\<bar> \<le> pi / 2 - 1 / 1000"
    by (simp add: abs_le_iff)
  then show ?thesis
    using pitchAngle_of_bounds [of "lookRotation g2" "lean g2"] tick_target [OF assms(2)]
    by (simp add: view_pitch_eq pitch_eps_def)
qed

theorem pitch_inside_poles_witness:
  "\<exists>g1 g2.
     run (game_init 0 0)
       [\<lparr>now = 1, mx = 0, my = 0, KEY_D = False, KEY_A = False, KEY_W = True, KEY_S = False,
         KEY_LEFT_CONTROL = False, KEY_SPACE = False\<rparr>] = Some g1
     \<and> tick g1 \<lparr>now = 2, mx = 1000000, my = 1000000000, KEY_D = False, KEY_A = False, KEY_W = True,
                KEY_S = False, KEY_LEFT_CONTROL = False, KEY_SPACE = False\<rparr> = Some g2
     \<and> - pi / 2 + pitch_eps < pitchAngle_of (lookRotation g2) (lean g2)
     \<and> pitchAngle_of (lookRotation g2) (lean g2) < pi / 2 - pitch_eps"
proof -
  obtain g1 where g1: "run (game_init 0 0)
       [\<lparr>now = 1, mx = 0, my = 0, KEY_D = False, KEY_A = False, KEY_W = True, KEY_S = False,
         KEY_LEFT_CONTROL = False, KEY_SPACE = False\<rparr>] = Some g1"
    using run_total by blast
  obtain g2 where g2: "tick g1 \<lparr>now = 2, mx = 1000000, my = 1000000000, KEY_D = False, KEY_A = False,
       KEY_W = True, KEY_S = False, KEY_LEFT_CONTROL = False, KEY_SPACE = False\<rparr> = Some g2"
    by (simp add: tick_Some)
  show ?thesis
    using pitch_inside_poles [OF g1 g2] g1 g2 by blast
qed

section \<open>Reachable bodies\<close>

text \<open>
  Every body the loop reaches from the initial state is, when flagged grounded, at
  height 0 with zero vertical velocity.
\<close>

lemma UpdateBody_resting:
  assumes "isGrounded b \<longrightarrow> vy (velocity b) = 0 \<and> vy (position b) = 0" and "0 \<le> vy (position b)"
  shows "(isGrounded (UpdateBody b rot s f j c dt) \<longrightarrow>
            vy (velocity (UpdateBody b rot s f j c dt)) = 0
            \<and> vy (position (UpdateBody b rot s f j c dt)) = 0)
         \<and> 0 \<le> vy (position (UpdateBody b rot s f j c dt))"
  using assms by (auto simp add: UpdateBody_def stage_defs Let_def split: if_splits)

lemma run_resting:
  assumes "isGrounded (player g) \<longrightarrow> vy (velocity (player g)) = 0 \<and> vy (position (player g)) = 0"
    and "0 \<le> vy (position (player g))" and "run g inps = Some g'"
  shows "(isGrounded (player g') \<longrightarrow> vy (velocity (player g')) = 0 \<and> vy (position (player g')) = 0)
         \<and> 0 \<le> vy (position (player g'))"
  using assms
proof (induction inps arbitrary: g)
  case Nil
  then show ?case by simp
next
  case (Cons i inps)
  obtain g1 where g1: "tick g i = Some g1" by (simp add: tick_Some)
  have p: "player g1 = UpdateBody (player g) (v2x (lookRotation (frame_update g i))) (sideway_of i)
         (forward_of i) (jumpPressed_of g i) (KEY_LEFT_CONTROL i) (frame_delta g i)"
    using tick_fields(1) [OF g1] by (simp add: frame_update_simps)
  have "(isGrounded (player g1) \<longrightarrow> vy (velocity (player g1)) = 0 \<and> vy (position (player g1)) = 0)
        \<and> 0 \<le> vy (position (player g1))"
    unfolding p by (rule UpdateBody_resting [OF Cons.prems(1,2)])
  then show ?case using Cons.IH [of g1] Cons.prems(3) g1 by simp
qed

lemma reachable_resting:
  assumes "run (game_init mx0 my0) inps = Some g"
  shows "isGrounded (player g) \<longrightarrow> vy (velocity (player g)) = 0 \<and> vy (position (player g)) = 0"
proof -
  have "isGrounded (player (game_init mx0 my0)) \<longrightarrow>
          vy (velocity (player (game_init mx0 my0))) = 0
          \<and> vy (position (player (game_init mx0 my0))) = 0"
    and "0 \<le> vy (position (player (game_init mx0 my0)))"
    by (simp_all add: game_init_def Body_init_def vec3_of_def)
  then show ?thesis using run_resting assms by blast
qed

lemma reachable_height:
  assumes "run (game_init mx0 my0) inps = Some g"
  shows "0 \<le> vy (position (player g))"
proof -
  have "isGrounded (player (game_init mx0 my0)) \<longrightarrow>
          vy (velocity (player (game_init mx0 my0))) = 0
          \<and> vy (position (player (game_init mx0 my0))) = 0"
    and "0 \<le> vy (position (player (game_init mx0 my0)))"
    by (simp_all add: game_init_def Body_init_def vec3_of_def)
  then show ?thesis using run_resting assms by blast
qed

section \<open>The jump edge\<close>

lemma frame_delta_pos: "0 < frame_delta g inp"
  by (simp add: frame_delta_def getDeltaSeconds_def Let_def)

lemma UpdateBody_jump:
  assumes "isGrounded b" "0 \<le> vy (position b)" "0 < dt"
  shows "vy (velocity (UpdateBody b rot s f True c dt)) = JUMP_FORCE"
    and "\<not> isGrounded (UpdateBody b rot s f True c dt)"
proof -
  have "0 < vy (position b) + JUMP_FORCE * dt"
    using assms by (simp add: JUMP_FORCE_def add_nonneg_pos)
  then show "vy (velocity (UpdateBody b rot s f True c dt)) = JUMP_FORCE"
    and "\<not> isGrounded (UpdateBody b rot s f True c dt)"
    using assms(1) by (simp_all add: UpdateBody_def stage_defs Let_def)
qed

lemma UpdateBody_airborne_jump:
  "\<not> isGrounded b \<Longrightarrow> UpdateBody b rot s f True c dt = UpdateBody b rot s f False c dt"
  by (simp add: UpdateBody_def apply_jump_def apply_gravity_def Let_def)

lemma UpdateBody_no_jump_vy:
  assumes "0 < dt" "vy (velocity b) \<le> JUMP_FORCE" "isGrounded b \<longrightarrow> vy (velocity b) \<le> 0"
  shows "vy (velocity (UpdateBody b rot s f False c dt)) < JUMP_FORCE"
    and "isGrounded (UpdateBody b rot s f False c dt) \<longrightarrow>
           vy (velocity (UpdateBody b rot s f False c dt)) \<le> 0"
proof -
  have g: "0 < GRAVITY * dt" using assms(1) by (simp add: GRAVITY_def)
  have j: "0 < JUMP_FORCE" by (simp add: JUMP_FORCE_def)
  show "vy (velocity (UpdateBody b rot s f False c dt)) < JUMP_FORCE"
    using assms(2,3) g j by (auto simp add: UpdateBody_def stage_defs Let_def split: if_splits)
  show "isGrounded (UpdateBody b rot s f False c dt) \<longrightarrow>
           vy (velocity (UpdateBody b rot s f False c dt)) \<le> 0"
    using assms(2,3) g j by (auto simp add: UpdateBody_def stage_defs Let_def split: if_splits)
qed

lemma tick_player:
  assumes "tick g inp = Some g'"
  shows "player g' = UpdateBody (player g) (v2x (lookRotation g')) (sideway_of inp) (forward_of inp)
           (jumpPressed_of g inp) (KEY_LEFT_CONTROL inp) (frame_delta g inp)"
  unfolding tick_fields(1,5) [OF assms] by (rule frame_update_simps(3))

lemma held_tick:
  assumes "prevSpace g" "vy (velocity (player g)) \<le> JUMP_FORCE"
    and "isGrounded (player g) \<longrightarrow> vy (velocity (player g)) \<le> 0"
    and "tick g inp = Some g'"
  shows "\<not> jumpPressed_of g inp"
    and "player g' = UpdateBody (player g) (v2x (lookRotation g')) (sideway_of inp) (forward_of inp)
           False (KEY_LEFT_CONTROL inp) (frame_delta g inp)"
    and "vy (velocity (player g')) < JUMP_FORCE"
    and "isGrounded (player g') \<longrightarrow> vy (velocity (player g')) \<le> 0"
proof -
  show n: "\<not> jumpPressed_of g inp" using assms(1) by (simp add: jumpPressed_of_def)
  show p: "player g' = UpdateBody (player g) (v2x (lookRotation g')) (sideway_of inp) (forward_of inp)
           False (KEY_LEFT_CONTROL inp) (frame_delta g inp)"
    using tick_player [OF assms(4)] n by simp
  show "vy (velocity (player g')) < JUMP_FORCE"
    unfolding p by (rule UpdateBody_no_jump_vy(1) [OF frame_delta_pos assms(2,3)])
  show "isGrounded (player g') \<longrightarrow> vy (velocity (player g')) \<le> 0"
    unfolding p by (rule UpdateBody_no_jump_vy(2) [OF frame_delta_pos assms(2,3)])
qed

lemma held_run:
  assumes "prevSpace g" "vy (velocity (player g)) \<le> JUMP_FORCE"
    and "isGrounded (player g) \<longrightarrow> vy (velocity (player g)) \<le> 0"
    and "\<forall>i\<in>set inps. KEY_SPACE i" and "run g inps = Some g'"
  shows "prevSpace g' \<and> vy (velocity (player g')) \<le> JUMP_FORCE
         \<and> (isGrounded (player g') \<longrightarrow> vy (velocity (player g')) \<le> 0)"
  using assms
proof (induction inps arbitrary: g)
  case Nil
  then show ?case by simp
next
  case (Cons i inps)
  obtain g1 where g1: "tick g i = Some g1" by (simp add: tick_Some)
  have "prevSpace g1" using tick_fields(3) [OF g1] Cons.prems(4) by simp
  moreover have "vy (velocity (player g1)) \<le> JUMP_FORCE"
    using held_tick(3) [OF Cons.prems(1-3) g1] by simp
  moreover have "isGrounded (player g1) \<longrightarrow> vy (velocity (player g1)) \<le> 0"
    by (rule held_tick(4) [OF Cons.prems(1-3) g1])
  moreover have "\<forall>i\<in>set inps. KEY_SPACE i" using Cons.prems(4) by simp
  moreover have "run g1 inps = Some g'" using Cons.prems(5) g1 by simp
  ultimately show ?case by (rule Cons.IH)
qed

text \<open>
  C2: take a state where the jump key was released and the body stands on the ground,
  and any sequence of iterations in which the key is down throughout. The first
  iteration passes \<open>jumpPressed = true\<close> to \<open>UpdateBody\<close> and leaves the body with
  vertical velocity \<open>JUMP_FORCE\<close> and not grounded. Every later iteration of the
  sequence, whether the body is still in the air or has landed again, passes
  \<open>jumpPressed = false\<close>, and leaves the vertical velocity below \<open>JUMP_FORCE\<close>: the jump
  runs once, not once per iteration. The height of a body the loop reaches from the
  initial state is never negative, so this covers every hold that starts on the
  ground. For a body in the air a jump request changes nothing: the step with the
  request equals the step without it.
\<close>

theorem jump_edge_triggered:
  "(\<not> prevSpace g \<and> isGrounded (player g) \<and> 0 \<le> vy (position (player g))
      \<and> (\<forall>i\<in>set (inp # inps). KEY_SPACE i) \<longrightarrow>
      (\<exists>g1. tick g inp = Some g1 \<and> jumpPressed_of g inp
          \<and> player g1 = UpdateBody (player g) (v2x (lookRotation g1)) (sideway_of inp)
                           (forward_of inp) True (KEY_LEFT_CONTROL inp) (frame_delta g inp)
          \<and> vy (velocity (player g1)) = JUMP_FORCE \<and> \<not> isGrounded (player g1))
      \<and> (\<forall>pre i post. inps = pre @ i # post \<longrightarrow>
           (\<exists>gk gk'. run g (inp # pre) = Some gk \<and> tick gk i = Some gk'
              \<and> \<not> jumpPressed_of gk i
              \<and> player gk' = UpdateBody (player gk) (v2x (lookRotation gk')) (sideway_of i)
                                (forward_of i) False (KEY_LEFT_CONTROL i) (frame_delta gk i)
              \<and> vy (velocity (player gk')) < JUMP_FORCE)))
   \<and> (run (game_init cx cy) hist = Some g \<longrightarrow> 0 \<le> vy (position (player g)))
   \<and> (\<not> isGrounded b \<longrightarrow>
        UpdateBody b rot s f True c dt = UpdateBody b rot s f False c dt)"
proof (intro conjI impI allI)
  assume a: "\<not> prevSpace g \<and> isGrounded (player g) \<and> 0 \<le> vy (position (player g))
      \<and> (\<forall>i\<in>set (inp # inps). KEY_SPACE i)"
  obtain g1 where g1: "tick g inp = Some g1" by (simp add: tick_Some)
  have jp: "jumpPressed_of g inp" using a by (simp add: jumpPressed_of_def)
  have p: "player g1 = UpdateBody (player g) (v2x (lookRotation g1)) (sideway_of inp)
             (forward_of inp) True (KEY_LEFT_CONTROL inp) (frame_delta g inp)"
    using tick_player [OF g1] jp by simp
  have v: "vy (velocity (player g1)) = JUMP_FORCE" "\<not> isGrounded (player g1)"
    unfolding p using a UpdateBody_jump [of "player g" "frame_delta g inp"] frame_delta_pos [of g inp]
    by simp_all
  show "\<exists>g1. tick g inp = Some g1 \<and> jumpPressed_of g inp
          \<and> player g1 = UpdateBody (player g) (v2x (lookRotation g1)) (sideway_of inp)
                           (forward_of inp) True (KEY_LEFT_CONTROL inp) (frame_delta g inp)
          \<and> vy (velocity (player g1)) = JUMP_FORCE \<and> \<not> isGrounded (player g1)"
    using g1 jp p v by blast
  fix pre i post
  assume s: "inps = pre @ i # post"
  obtain gk where gk1: "run g1 pre = Some gk" using run_total by blast
  then have gk: "run g (inp # pre) = Some gk" using g1 by simp
  obtain gk' where gk': "tick gk i = Some gk'" by (simp add: tick_Some)
  have ps: "prevSpace g1" using tick_fields(3) [OF g1] a by simp
  have pre: "\<forall>i\<in>set pre. KEY_SPACE i" using a s by simp
  have h: "prevSpace gk \<and> vy (velocity (player gk)) \<le> JUMP_FORCE
         \<and> (isGrounded (player gk) \<longrightarrow> vy (velocity (player gk)) \<le> 0)"
    using held_run [OF ps _ _ pre gk1] v by simp
  then have h': "prevSpace gk" "vy (velocity (player gk)) \<le> JUMP_FORCE"
    "isGrounded (player gk) \<longrightarrow> vy (velocity (player gk)) \<le> 0"
    by simp_all
  show "\<exists>gk gk'. run g (inp # pre) = Some gk \<and> tick gk i = Some gk'
              \<and> \<not> jumpPressed_of gk i
              \<and> player gk' = UpdateBody (player gk) (v2x (lookRotation gk')) (sideway_of i)
                                (forward_of i) False (KEY_LEFT_CONTROL i) (frame_delta gk i)
              \<and> vy (velocity (player gk')) < JUMP_FORCE"
    using gk gk' held_tick(1-3) [OF h' gk'] by blast
next
  assume "run (game_init cx cy) hist = Some g"
  then show "0 \<le> vy (position (player g))" by (rule reachable_height)
next
  assume "\<not> isGrounded b"
  then show "UpdateBody b rot s f True c dt = UpdateBody b rot s f False c dt"
    by (rule UpdateBody_airborne_jump)
qed

theorem jump_edge_triggered_witness:
  "\<not> prevSpace (game_init 0 0) \<and> isGrounded (player (game_init 0 0))
   \<and> 0 \<le> vy (position (player (game_init 0 0)))
   \<and> KEY_SPACE (frame_SPACE 1) \<and> KEY_SPACE (frame_SPACE 2) \<and> KEY_SPACE (frame_SPACE 3)
   \<and> (\<exists>g1. tick (game_init 0 0) (frame_SPACE 1) = Some g1
          \<and> vy (velocity (player g1)) = JUMP_FORCE \<and> \<not> isGrounded (player g1))
   \<and> (\<exists>gk gk'. run (game_init 0 0) [frame_SPACE 1, frame_SPACE 2] = Some gk
          \<and> tick gk (frame_SPACE 3) = Some gk'
          \<and> \<not> jumpPressed_of gk (frame_SPACE 3)
          \<and> vy (velocity (player gk')) < JUMP_FORCE)
   \<and> \<not> isGrounded \<lparr>position = \<lparr>vx = 0, vy = 3, vz = 0\<rparr>, velocity = \<lparr>vx = 0, vy = 1, vz = 0\<rparr>,
                      dir = \<lparr>vx = 0, vy = 0, vz = 0\<rparr>, isGrounded = False\<rparr>
   \<and> UpdateBody \<lparr>position = \<lparr>vx = 0, vy = 3, vz = 0\<rparr>, velocity = \<lparr>vx = 0, vy = 1, vz = 0\<rparr>,
                  dir = \<lparr>vx = 0, vy = 0, vz = 0\<rparr>, isGrounded = False\<rparr> 0 0 0 True False (1 / 60)
       = UpdateBody \<lparr>position = \<lparr>vx = 0, vy = 3, vz = 0\<rparr>, velocity = \<lparr>vx = 0, vy = 1, vz = 0\<rparr>,
                     dir = \<lparr>vx = 0, vy = 0, vz = 0\<rparr>, isGrounded = False\<rparr> 0 0 0 False False (1 / 60)"
proof -
  have h: "\<not> prevSpace (game_init 0 0) \<and> isGrounded (player (game_init 0 0))
      \<and> 0 \<le> vy (position (player (game_init 0 0)))
      \<and> (\<forall>i\<in>set [frame_SPACE 1, frame_SPACE 2, frame_SPACE 3]. KEY_SPACE i)"
    by (simp add: game_init_def Body_init_def vec3_of_def frame_SPACE_def)
  have a: "\<not> isGrounded \<lparr>position = \<lparr>vx = 0, vy = 3, vz = 0\<rparr>, velocity = \<lparr>vx = 0, vy = 1, vz = 0\<rparr>,
                      dir = \<lparr>vx = 0, vy = 0, vz = 0\<rparr>, isGrounded = False\<rparr>"
    by simp
  note t = jump_edge_triggered [where g = "game_init 0 0" and inp = "frame_SPACE 1"
      and inps = "[frame_SPACE 2, frame_SPACE 3]"
      and b = "\<lparr>position = \<lparr>vx = 0, vy = 3, vz = 0\<rparr>, velocity = \<lparr>vx = 0, vy = 1, vz = 0\<rparr>,
        dir = \<lparr>vx = 0, vy = 0, vz = 0\<rparr>, isGrounded = False\<rparr>"
      and rot = 0 and s = 0 and f = 0 and c = False and dt = "1 / 60"
      and cx = 0 and cy = 0 and hist = "[]"]
  have 1: "\<exists>g1. tick (game_init 0 0) (frame_SPACE 1) = Some g1
          \<and> vy (velocity (player g1)) = JUMP_FORCE \<and> \<not> isGrounded (player g1)"
    using t h by blast
  have "[frame_SPACE 2, frame_SPACE 3] = [frame_SPACE 2] @ frame_SPACE 3 # []" by simp
  then have 2: "\<exists>gk gk'. run (game_init 0 0) [frame_SPACE 1, frame_SPACE 2] = Some gk
          \<and> tick gk (frame_SPACE 3) = Some gk'
          \<and> \<not> jumpPressed_of gk (frame_SPACE 3)
          \<and> vy (velocity (player gk')) < JUMP_FORCE"
    using t h by blast
  have 3: "UpdateBody \<lparr>position = \<lparr>vx = 0, vy = 3, vz = 0\<rparr>, velocity = \<lparr>vx = 0, vy = 1, vz = 0\<rparr>,
                  dir = \<lparr>vx = 0, vy = 0, vz = 0\<rparr>, isGrounded = False\<rparr> 0 0 0 True False (1 / 60)
       = UpdateBody \<lparr>position = \<lparr>vx = 0, vy = 3, vz = 0\<rparr>, velocity = \<lparr>vx = 0, vy = 1, vz = 0\<rparr>,
                     dir = \<lparr>vx = 0, vy = 0, vz = 0\<rparr>, isGrounded = False\<rparr> 0 0 0 False False (1 / 60)"
    using t a by blast
  show ?thesis using h 1 2 3 a by simp
qed

section \<open>Walking forward from rest\<close>

lemma forward_speed_0: "forward_speed 0 = 0"
  by (simp add: forward_speed_def)

lemma forward_speed_Suc:
  "forward_speed (Suc n) = 43 / 50 * forward_speed n + 5 / 2 * (1 - (3 / 4) ^ Suc n)"
  by (simp add: forward_speed_def algebra_simps)

lemma forward_speed_le: "forward_speed n \<le> 125 / 7 * (1 - (3 / 4) ^ n)"
proof -
  have "(3 / 4 :: real) ^ n \<le> (43 / 50) ^ n" by (rule power_mono) simp_all
  then show ?thesis by (simp add: forward_speed_def algebra_simps)
qed

lemma forward_speed_lt: "forward_speed n < 125 / 7"
proof -
  define p where "p = (3 / 4 :: real) ^ n"
  have "0 < p" by (simp add: p_def)
  moreover have "forward_speed n \<le> 125 / 7 * (1 - p)"
    unfolding p_def by (rule forward_speed_le)
  ultimately show ?thesis by simp
qed

lemma forward_speed_nonneg: "0 \<le> forward_speed n"
proof (induction n)
  case 0
  show ?case by (simp add: forward_speed_0)
next
  case (Suc n)
  have "(3 / 4 :: real) ^ Suc n \<le> 1" by (rule power_le_one) simp_all
  then have "0 \<le> 5 / 2 * (1 - (3 / 4 :: real) ^ Suc n)" by simp
  then show ?case using Suc unfolding forward_speed_Suc by simp
qed

lemma forward_speed_mono: "forward_speed n \<le> forward_speed (Suc n)"
proof -
  have "(3 / 4 :: real) ^ Suc n \<le> (3 / 4) ^ n" by simp
  then have "125 / 7 * (1 - (3 / 4 :: real) ^ n) \<le> 125 / 7 * (1 - (3 / 4) ^ Suc n)"
    by simp
  then have "forward_speed n \<le> 125 / 7 * (1 - (3 / 4) ^ Suc n)"
    using forward_speed_le [of n] by linarith
  then show ?thesis unfolding forward_speed_Suc by linarith
qed

lemma forward_speed_ge: "5 / 8 \<le> forward_speed (Suc n)"
proof -
  have "forward_speed (Suc 0) \<le> forward_speed (Suc n)"
    by (induction n) (auto intro: order_trans forward_speed_mono)
  then show ?thesis by (simp add: forward_speed_def)
qed


lemma desiredDir_forward:
  "desiredDir_of yaw 0 1 = \<lparr>vx = - 1 * sin yaw, vy = 0, vz = - 1 * cos yaw\<rparr>"
  by (simp add: desiredDir_of_def Let_def)

lemma dot_horizontal:
  "dot \<lparr>vx = p * sin a, vy = 0, vz = p * cos a\<rparr> \<lparr>vx = q * sin a, vy = y, vz = q * cos a\<rparr> = p * q"
proof -
  have "p * sin a * (q * sin a) + p * cos a * (q * cos a) = p * q * (sin a * sin a + cos a * cos a)"
    by (simp only: algebra_simps)
  then show ?thesis by (simp add: dot_def sin_cos_sq)
qed

lemma decayed_hvel_horizontal:
  assumes "isGrounded b" "vx (velocity b) = k * sin a" "vz (velocity b) = k * cos a"
    and "k = 0 \<or> 1 / 5 \<le> \<bar>k\<bar> * (43 / 50)"
  shows "decayed_hvel b = \<lparr>vx = k * (43 / 50) * sin a, vy = 0, vz = k * (43 / 50) * cos a\<rparr>"
proof -
  have l: "glm_length \<lparr>vx = k * sin a * FRICTION, vy = 0, vz = k * cos a * FRICTION\<rparr> = \<bar>k\<bar> * (43 / 50)"
    using glm_length_horizontal [of "k * (43 / 50)" a]
    by (simp add: FRICTION_def abs_mult mult.assoc mult.left_commute mult.commute)
  show ?thesis
    using assms(4)
  proof
    assume "k = 0"
    then show ?thesis using assms(1-3) by (simp add: decayed_hvel_def Let_def vec3_of_def glm_length_def dot_def)
  next
    assume "1 / 5 \<le> \<bar>k\<bar> * (43 / 50)"
    then show ?thesis using assms(1-3) l
      by (simp add: decayed_hvel_def Let_def MAX_SPEED_def) (simp add: FRICTION_def)
  qed
qed

lemma walk_step:
  assumes g: "isGrounded b" and y: "vy (position b) = 0" and vy0: "vy (velocity b) = 0"
    and v: "vx (velocity b) = - s * sin yaw" "vz (velocity b) = - s * cos yaw"
    and d: "dir b = \<lparr>vx = - d * sin yaw, vy = 0, vz = - d * cos yaw\<rparr>"
    and s: "s = 0 \<or> 5 / 8 \<le> s" "s \<le> 125 / 7" and d01: "0 \<le> d" "d \<le> 1"
  defines "b' \<equiv> UpdateBody b yaw 0 1 False False (1 / 60)"
  shows "isGrounded b'" and "vy (position b') = 0"
    and "velocity b' = \<lparr>vx = - (43 / 50 * s + 5 / 2 * (3 / 4 * d + 1 / 4)) * sin yaw, vy = 0,
                         vz = - (43 / 50 * s + 5 / 2 * (3 / 4 * d + 1 / 4)) * cos yaw\<rparr>"
    and "dir b' = \<lparr>vx = - (3 / 4 * d + 1 / 4) * sin yaw, vy = 0, vz = - (3 / 4 * d + 1 / 4) * cos yaw\<rparr>"
proof -
  let ?b1 = "apply_jump (apply_gravity b (1 / 60)) False"
  have b1: "?b1 = b" using g by (simp add: apply_jump_def apply_gravity_def)
  have dir': "dir b' = \<lparr>vx = - (3 / 4 * d + 1 / 4) * sin yaw, vy = 0, vz = - (3 / 4 * d + 1 / 4) * cos yaw\<rparr>"
    unfolding b'_def
    by (simp add: UpdateBody_def Let_def b1 d desiredDir_forward mix3_def mix_def clampf_def CONTROL_def
          algebra_simps)
  have k: "- s = 0 \<or> 1 / 5 \<le> \<bar>- s\<bar> * (43 / 50)" using s(1) by auto
  have hv: "decayed_hvel b = \<lparr>vx = - s * (43 / 50) * sin yaw, vy = 0, vz = - s * (43 / 50) * cos yaw\<rparr>"
    using decayed_hvel_horizontal [OF g v k] .
  have sp: "dot (decayed_hvel b) (dir b') = (- s * (43 / 50)) * (- (3 / 4 * d + 1 / 4))"
    unfolding hv dir' by (rule dot_horizontal)
  define q where "q = s * (3 / 4 * d + 1 / 4)"
  have q: "q \<le> 125 / 7 * 1"
    unfolding q_def using s(2) d01 by (intro mult_mono) (use s(1) in auto)
  have sp': "dot (decayed_hvel b) (dir b') = 43 / 50 * q"
    unfolding sp q_def by (simp add: algebra_simps)
  have acc: "accel_of (decayed_hvel b) (dir b') False (1 / 60) = 5 / 2"
    unfolding accel_of_def Let_def sp' using q
    by (simp add: clampf_def MAX_SPEED_def MAX_ACCEL_def)
  note h = UpdateBody_hvel [of b yaw 0 1 False False "1 / 60", unfolded b1, folded b'_def]
  have vxz: "vx (velocity b') = - (43 / 50 * s + 5 / 2 * (3 / 4 * d + 1 / 4)) * sin yaw"
            "vz (velocity b') = - (43 / 50 * s + 5 / 2 * (3 / 4 * d + 1 / 4)) * cos yaw"
    unfolding h acc unfolding hv dir' by (simp_all add: algebra_simps)
  have rest: "isGrounded b' \<and> vy (position b') = 0 \<and> vy (velocity b') = 0"
    unfolding b'_def using g y vy0
    by (simp add: UpdateBody_def Let_def b1 ground_clamp_def integrate_def)
  show "isGrounded b'" "vy (position b') = 0" using rest by simp_all
  show "velocity b' = \<lparr>vx = - (43 / 50 * s + 5 / 2 * (3 / 4 * d + 1 / 4)) * sin yaw, vy = 0,
                         vz = - (43 / 50 * s + 5 / 2 * (3 / 4 * d + 1 / 4)) * cos yaw\<rparr>"
    using vxz rest by simp
  show "dir b' = \<lparr>vx = - (3 / 4 * d + 1 / 4) * sin yaw, vy = 0, vz = - (3 / 4 * d + 1 / 4) * cos yaw\<rparr>"
    by (rule dir')
qed

lemma walk_forward_state:
  "isGrounded (walk_forward yaw n) \<and> vy (position (walk_forward yaw n)) = 0
   \<and> velocity (walk_forward yaw n)
       = \<lparr>vx = - forward_speed n * sin yaw, vy = 0, vz = - forward_speed n * cos yaw\<rparr>
   \<and> dir (walk_forward yaw n)
       = \<lparr>vx = - (1 - (3 / 4) ^ n) * sin yaw, vy = 0, vz = - (1 - (3 / 4) ^ n) * cos yaw\<rparr>"
proof (induction n)
  case 0
  show ?case by (simp add: Body_init_def vec3_of_def forward_speed_0)
next
  case (Suc n)
  let ?b = "walk_forward yaw n"
  have s1: "forward_speed n = 0 \<or> 5 / 8 \<le> forward_speed n"
  proof (cases n)
    case 0
    then show ?thesis by (simp add: forward_speed_0)
  next
    case (Suc m)
    then show ?thesis using forward_speed_ge [of m] by simp
  qed
  have s2: "forward_speed n \<le> 125 / 7" using forward_speed_lt [of n] by simp
  have d1: "0 \<le> 1 - (3 / 4 :: real) ^ n"
    using power_le_one [of "3 / 4 :: real" n] by simp
  have d2: "1 - (3 / 4 :: real) ^ n \<le> 1" by simp
  have e: "3 / 4 * (1 - (3 / 4 :: real) ^ n) + 1 / 4 = 1 - (3 / 4) ^ Suc n"
    by (simp add: field_simps)
  note st = walk_step [of ?b "forward_speed n" yaw "1 - (3 / 4) ^ n", unfolded e,
      folded forward_speed_Suc walk_forward.simps(2)]
  from Suc have g: "isGrounded ?b" and y: "vy (position ?b) = 0"
    and v: "velocity ?b = \<lparr>vx = - forward_speed n * sin yaw, vy = 0, vz = - forward_speed n * cos yaw\<rparr>"
    and d: "dir ?b = \<lparr>vx = - (1 - (3 / 4) ^ n) * sin yaw, vy = 0, vz = - (1 - (3 / 4) ^ n) * cos yaw\<rparr>"
    by simp_all
  have v': "vy (velocity ?b) = 0" "vx (velocity ?b) = - forward_speed n * sin yaw"
    "vz (velocity ?b) = - forward_speed n * cos yaw" unfolding v by simp_all
  show ?case
    using st [OF g y v' d s1 s2 d1 d2] by simp
qed

lemma velocity_len_walk: "velocity_len (walk_forward yaw n) = forward_speed n"
proof -
  have "sqrt (- forward_speed n * sin yaw * (- forward_speed n * sin yaw)
               + - forward_speed n * cos yaw * (- forward_speed n * cos yaw)) = \<bar>- forward_speed n\<bar>"
    using glm_length_horizontal [of "- forward_speed n" yaw] by (simp add: glm_length_def dot_def)
  then show ?thesis
    using forward_speed_nonneg [of n] walk_forward_state [of yaw n]
    by (simp add: velocity_len_def)
qed










section \<open>Coasting without input\<close>








lemma velocity_len_zero: "velocity_len b = 0 \<longleftrightarrow> vx (velocity b) = 0 \<and> vz (velocity b) = 0"
proof -
  have "vx (velocity b) * vx (velocity b) + vz (velocity b) * vz (velocity b) = 0
        \<longleftrightarrow> vx (velocity b) = 0 \<and> vz (velocity b) = 0"
    by (simp add: sum_squares_eq_zero_iff)
  then show ?thesis by (simp add: velocity_len_def)
qed























section \<open>The head-bob timer\<close>

text \<open>
  C7, amended: every iteration of the loop advances \<open>headTimer\<close> by \<open>3 * delta\<close>, with
  \<open>delta > 0\<close>, when after \<open>UpdateBody\<close> the body is grounded and the forward or the
  sideways input is not zero, and leaves it unchanged otherwise. The rate is the
  constant 3; the speed of the body does not enter.
\<close>

theorem headTimer_advance:
  "\<exists>g'. tick g inp = Some g'
     \<and> headTimer g' - headTimer g
         = (if isGrounded (player g') \<and> (forward_of inp \<noteq> 0 \<or> sideway_of inp \<noteq> 0)
            then 3 * frame_delta g inp else 0)
     \<and> 0 < frame_delta g inp"
proof -
  obtain g' where g': "tick g inp = Some g'" by (simp add: tick_Some)
  have "headTimer g' - headTimer g
         = (if isGrounded (player g') \<and> (forward_of inp \<noteq> 0 \<or> sideway_of inp \<noteq> 0)
            then 3 * frame_delta g inp else 0)"
    unfolding tick_fields(1,2) [OF g'] by (auto simp add: frame_update_simps(4))
  then show ?thesis using g' frame_delta_pos by blast
qed

lemma walk_tick:
  assumes "v2x (lookRotation g) = 0" "firstMouse g \<or> lastMouseX g = 0" "\<not> prevSpace g"
    and "frame_delta g (frame_W t) = 1 / 60" and "tick g (frame_W t) = Some g'"
  shows "player g' = UpdateBody (player g) 0 0 1 False False (1 / 60)"
    and "v2x (lookRotation g') = 0" and "\<not> firstMouse g'" and "lastMouseX g' = 0" and "\<not> prevSpace g'"
    and "prev g' = t"
    and "headTimer g' - headTimer g = (if isGrounded (player g') then 1 / 20 else 0)"
proof -
  have lr: "v2x (lookRotation (frame_update g (frame_W t))) = 0"
    using assms(1,2) by (auto simp add: frame_update_simps(1) accumulate_look_def Let_def frame_W_def)
  show p: "player g' = UpdateBody (player g) 0 0 1 False False (1 / 60)"
    unfolding tick_fields(1) [OF assms(5)] frame_update_simps(3) lr assms(4)
    using assms(3) by (simp add: sideway_of_def forward_of_def jumpPressed_of_def frame_W_def)
  show "v2x (lookRotation g') = 0" using tick_fields(5) [OF assms(5)] lr by simp
  show "\<not> prevSpace g'" using tick_fields(3) [OF assms(5)] by (simp add: frame_W_def)
  have g': "g' = camera_pose ((frame_update g (frame_W t))\<lparr>lookRotation := (lookRotation (frame_update g (frame_W t)))\<lparr>v2y :=
        clampf (v2y (lookRotation (frame_update g (frame_W t)))) (- (pi / 2 - 1 / 1000)) (pi / 2 - 1 / 1000)\<rparr>\<rparr>)
        (view_yaw (frame_update g (frame_W t)))"
    using assms(5) by (simp add: tick_Some)
  show "\<not> firstMouse g'" "lastMouseX g' = 0" "prev g' = t"
    unfolding g'
    by (simp_all add: frame_update_def Let_def place_camera_def lean_update_def head_update_def
          move_player_def mouse_look_def getDeltaSeconds_def frame_W_def)
  show "headTimer g' - headTimer g = (if isGrounded (player g') then 1 / 20 else 0)"
    unfolding tick_fields(2) [OF assms(5)] frame_update_simps(4)
    unfolding tick_fields(1) [OF assms(5), symmetric] assms(4)
    by (simp add: forward_of_def frame_W_def)
qed

lemma two_walk_ticks:
  obtains g1 g2 where "tick (game_init 0 0) (frame_W 1) = Some g1"
    and "tick g1 (frame_W (61 / 60)) = Some g2"
    and "frame_delta (game_init 0 0) (frame_W 1) = 1 / 60"
    and "frame_delta g1 (frame_W (61 / 60)) = 1 / 60"
    and "player g1 = walk_forward 0 1" and "player g2 = walk_forward 0 2"
    and "headTimer g1 - headTimer (game_init 0 0) = 1 / 20"
    and "headTimer g2 - headTimer g1 = 1 / 20"
proof -
  let ?g0 = "game_init 0 0"
  obtain g1 where g1: "tick ?g0 (frame_W 1) = Some g1" by (simp add: tick_Some)
  obtain g2 where g2: "tick g1 (frame_W (61 / 60)) = Some g2" by (simp add: tick_Some)
  have d0: "frame_delta ?g0 (frame_W 1) = 1 / 60"
    by (simp add: frame_delta_def getDeltaSeconds_def game_init_def frame_W_def Let_def)
  have i0: "v2x (lookRotation ?g0) = 0" "firstMouse ?g0 \<or> lastMouseX ?g0 = 0" "\<not> prevSpace ?g0"
    by (simp_all add: game_init_def)
  note t1 = walk_tick [OF i0 d0 g1]
  have d1: "frame_delta g1 (frame_W (61 / 60)) = 1 / 60"
    using t1(6) by (simp add: frame_delta_def getDeltaSeconds_def frame_W_def Let_def)
  have i1: "firstMouse g1 \<or> lastMouseX g1 = 0" using t1(4) by simp
  note t2 = walk_tick [OF t1(2) i1 t1(5) d1 g2]
  have p1: "player g1 = walk_forward 0 1"
    using t1(1) by (simp add: game_init_def)
  have p2: "player g2 = walk_forward 0 2"
    using t2(1) p1 by (simp add: numeral_2_eq_2)
  have h1: "headTimer g1 - headTimer ?g0 = 1 / 20"
    using t1(7) walk_forward_state [of 0 1] unfolding p1 by simp
  have h2: "headTimer g2 - headTimer g1 = 1 / 20"
    using t2(7) walk_forward_state [of 0 2] unfolding p2 by simp
  show ?thesis using that [OF g1 g2 d0 d1 p1 p2 h1 h2] .
qed

text \<open>
  C7, as stated: no constant \<open>k\<close> makes the advance of \<open>headTimer\<close> on the iterations that
  advance it equal to \<open>k\<close> times the speed of the body times \<open>delta\<close>, neither with the
  speed after the step nor with the speed before it. The first two iterations with the
  W key show it: both advance the timer by 1/20, at speeds 0, 5/8 and 261/160.
\<close>

theorem C7_counterexample:
  "\<not> (\<exists>k. \<forall>g inp g'. tick g inp = Some g' \<and> isGrounded (player g')
            \<and> (forward_of inp \<noteq> 0 \<or> sideway_of inp \<noteq> 0) \<longrightarrow>
          headTimer g' - headTimer g = k * velocity_len (player g') * frame_delta g inp)
   \<and> \<not> (\<exists>k. \<forall>g inp g'. tick g inp = Some g' \<and> isGrounded (player g')
            \<and> (forward_of inp \<noteq> 0 \<or> sideway_of inp \<noteq> 0) \<longrightarrow>
          headTimer g' - headTimer g = k * velocity_len (player g) * frame_delta g inp)"
proof -
  obtain g1 g2 where g1: "tick (game_init 0 0) (frame_W 1) = Some g1"
    and g2: "tick g1 (frame_W (61 / 60)) = Some g2"
    and d0: "frame_delta (game_init 0 0) (frame_W 1) = 1 / 60"
    and d1: "frame_delta g1 (frame_W (61 / 60)) = 1 / 60"
    and p1: "player g1 = walk_forward 0 1" and p2: "player g2 = walk_forward 0 2"
    and h1: "headTimer g1 - headTimer (game_init 0 0) = 1 / 20"
    and h2: "headTimer g2 - headTimer g1 = 1 / 20"
    by (rule two_walk_ticks)
  have f: "forward_of (frame_W t) \<noteq> 0" for t by (simp add: forward_of_def frame_W_def)
  have gr: "isGrounded (player g1)" "isGrounded (player g2)"
    unfolding p1 p2 using walk_forward_state [of 0 1] walk_forward_state [of 0 2] by simp_all
  have l0: "velocity_len (player (game_init 0 0)) = 0"
    by (simp add: velocity_len_def game_init_def Body_init_def vec3_of_def)
  have l1: "velocity_len (player g1) = 5 / 8"
    unfolding p1 velocity_len_walk by (simp add: forward_speed_def)
  have l2: "velocity_len (player g2) = 261 / 160"
    unfolding p2 velocity_len_walk by (simp add: forward_speed_def power2_eq_square)
  have a: False
    if k: "\<forall>g inp g'. tick g inp = Some g' \<and> isGrounded (player g')
            \<and> (forward_of inp \<noteq> 0 \<or> sideway_of inp \<noteq> 0) \<longrightarrow>
          headTimer g' - headTimer g = k * velocity_len (player g') * frame_delta g inp" for k
  proof -
    have "1 / 20 = k * (5 / 8) * (1 / 60)"
      using k [rule_format, of "game_init 0 0" "frame_W 1" g1] g1 gr(1) f h1 l1 d0 by simp
    moreover have "1 / 20 = k * (261 / 160) * (1 / 60)"
      using k [rule_format, of g1 "frame_W (61 / 60)" g2] g2 gr(2) f h2 l2 d1 by simp
    ultimately show False by simp
  qed
  have b: False
    if k: "\<forall>g inp g'. tick g inp = Some g' \<and> isGrounded (player g')
            \<and> (forward_of inp \<noteq> 0 \<or> sideway_of inp \<noteq> 0) \<longrightarrow>
          headTimer g' - headTimer g = k * velocity_len (player g) * frame_delta g inp" for k
  proof -
    have "1 / 20 = k * 0 * (1 / 60)"
      using k [rule_format, of "game_init 0 0" "frame_W 1" g1] g1 gr(1) f h1 l0 d0 by simp
    then show False by simp
  qed
  show ?thesis using a b by blast
qed

theorem headTimer_advance_witness:
  "\<exists>g1. tick (game_init 0 0) (frame_W 1) = Some g1
     \<and> isGrounded (player g1) \<and> forward_of (frame_W 1) \<noteq> 0
     \<and> headTimer g1 - headTimer (game_init 0 0) = 3 * frame_delta (game_init 0 0) (frame_W 1)
     \<and> 0 < frame_delta (game_init 0 0) (frame_W 1)"
proof -
  obtain g1 g2 where g1: "tick (game_init 0 0) (frame_W 1) = Some g1"
    and "tick g1 (frame_W (61 / 60)) = Some g2"
    and p1: "player g1 = walk_forward 0 1"
    by (rule two_walk_ticks)
  have gr: "isGrounded (player g1)"
    unfolding p1 using walk_forward_state [of 0 1] by simp
  have f: "forward_of (frame_W 1) \<noteq> 0" by (simp add: forward_of_def frame_W_def)
  show ?thesis
    using headTimer_advance [of "game_init 0 0" "frame_W 1"] g1 gr f by auto
qed

section \<open>The ground plane\<close>

text \<open>
  C1: after \<open>UpdateBody\<close> the height is not negative, for every body and every input.
  Every body the loop reaches from the initial state is at a non-negative height with
  zero vertical velocity when it is flagged grounded, and a step from it, with any
  arguments, leaves a body with zero vertical velocity when it leaves it grounded. For
  every body, the step preserves "grounded implies zero vertical velocity", and the
  clamp, when the height is not positive, sets the flag and zeroes the height and the
  vertical velocity. A body at height 0 that moves downwards is not below the ground
  after one more step.
\<close>

theorem UpdateBody_ground_clamp:
  "0 \<le> vy (position (UpdateBody b rot s f j c dt))
   \<and> (run (game_init mx0 my0) inps = Some g \<longrightarrow>
        0 \<le> vy (position (player g))
        \<and> (isGrounded (player g) \<longrightarrow> vy (velocity (player g)) = 0)
        \<and> (isGrounded (UpdateBody (player g) rot s f j c dt) \<longrightarrow>
             vy (velocity (UpdateBody (player g) rot s f j c dt)) = 0))
   \<and> ((isGrounded b \<longrightarrow> vy (velocity b) = 0) \<longrightarrow>
        isGrounded (UpdateBody b rot s f j c dt) \<longrightarrow>
        vy (velocity (UpdateBody b rot s f j c dt)) = 0)
   \<and> (vy (position b) \<le> 0 \<longrightarrow>
        isGrounded (ground_clamp b) \<and> vy (velocity (ground_clamp b)) = 0
        \<and> vy (position (ground_clamp b)) = 0)
   \<and> (vy (position b) = 0 \<and> vy (velocity b) < 0 \<longrightarrow>
        \<not> vy (position (UpdateBody b rot s f j c dt)) < 0)"
proof (intro conjI impI)
  show "0 \<le> vy (position (UpdateBody b rot s f j c dt))" by (rule UpdateBody_height)
next
  assume r: "run (game_init mx0 my0) inps = Some g"
  have i: "isGrounded (player g) \<longrightarrow> vy (velocity (player g)) = 0 \<and> vy (position (player g)) = 0"
    using r by (rule reachable_resting)
  show "0 \<le> vy (position (player g))" using r by (rule reachable_height)
  {
    assume "isGrounded (player g)"
    then show "vy (velocity (player g)) = 0" using i by simp
  }
  {
    assume "isGrounded (UpdateBody (player g) rot s f j c dt)"
    then show "vy (velocity (UpdateBody (player g) rot s f j c dt)) = 0"
      using i by (intro UpdateBody_grounded_vy) simp_all
  }
next
  assume "isGrounded b \<longrightarrow> vy (velocity b) = 0" "isGrounded (UpdateBody b rot s f j c dt)"
  then show "vy (velocity (UpdateBody b rot s f j c dt)) = 0" by (rule UpdateBody_grounded_vy)
next
  assume "vy (position b) \<le> 0"
  then show "isGrounded (ground_clamp b)" "vy (velocity (ground_clamp b)) = 0"
    "vy (position (ground_clamp b)) = 0"
    by (simp_all add: ground_clamp_def)
next
  show "\<not> vy (position (UpdateBody b rot s f j c dt)) < 0"
    using UpdateBody_height [of b rot s f j c dt] by simp
qed

theorem UpdateBody_ground_clamp_witness:
  "(\<exists>g. run (game_init 0 0) [frame_W 1] = Some g
       \<and> 0 \<le> vy (position (player g))
       \<and> isGrounded (UpdateBody (player g) 0 0 1 False False (1 / 60))
       \<and> vy (velocity (UpdateBody (player g) 0 0 1 False False (1 / 60))) = 0)
   \<and> vy (position \<lparr>position = \<lparr>vx = 0, vy = 0, vz = 0\<rparr>,
                    velocity = \<lparr>vx = 0, vy = - 1, vz = 0\<rparr>,
                    dir = \<lparr>vx = 0, vy = 0, vz = 0\<rparr>, isGrounded = False\<rparr>) = 0
   \<and> vy (velocity \<lparr>position = \<lparr>vx = 0, vy = 0, vz = 0\<rparr>,
                    velocity = \<lparr>vx = 0, vy = - 1, vz = 0\<rparr>,
                    dir = \<lparr>vx = 0, vy = 0, vz = 0\<rparr>, isGrounded = False\<rparr>) < 0
   \<and> \<not> vy (position (UpdateBody \<lparr>position = \<lparr>vx = 0, vy = 0, vz = 0\<rparr>,
                                  velocity = \<lparr>vx = 0, vy = - 1, vz = 0\<rparr>,
                                  dir = \<lparr>vx = 0, vy = 0, vz = 0\<rparr>,
                                  isGrounded = False\<rparr> 0 0 0 False False (1 / 60))) < 0"
proof -
  obtain g g2 where g1: "tick (game_init 0 0) (frame_W 1) = Some g"
    and "tick g (frame_W (61 / 60)) = Some g2"
    and p: "player g = walk_forward 0 1"
    by (rule two_walk_ticks)
  have g: "run (game_init 0 0) [frame_W 1] = Some g" using g1 by simp
  have "isGrounded (player g)" unfolding p using walk_forward_state [of 0 1] by simp
  then have k: "isGrounded (UpdateBody (player g) 0 0 1 False False (1 / 60))"
    by (rule UpdateBody_keeps_grounded)
  note t = UpdateBody_ground_clamp [of "player g" 0 0 1 False False "1 / 60" 0 0 "[frame_W 1]" g]
    UpdateBody_ground_clamp [of "\<lparr>position = \<lparr>vx = 0, vy = 0, vz = 0\<rparr>,
                                      velocity = \<lparr>vx = 0, vy = - 1, vz = 0\<rparr>,
                                      dir = \<lparr>vx = 0, vy = 0, vz = 0\<rparr>,
                                      isGrounded = False\<rparr>" 0 0 0 False False "1 / 60" 0 0 "[frame_W 1]" g]
  show ?thesis using t g k by (intro conjI exI [of _ g]) simp_all
qed

text \<open>
  C10: a grounded body that the loop reaches from the initial state, stepped without a
  jump request and with any other arguments, keeps its height, its vertical velocity
  and its grounded flag. The same holds for every body that is flagged grounded with
  zero vertical velocity at a non-negative height, as every reachable grounded body is.
  For every flagged body the step without a jump request skips gravity and the jump
  and leaves the flag set.
\<close>

theorem UpdateBody_grounded_frame:
  "(run (game_init mx0 my0) inps = Some g \<and> isGrounded (player g) \<longrightarrow>
      vy (position (UpdateBody (player g) rot s f False c dt)) = vy (position (player g))
      \<and> vy (velocity (UpdateBody (player g) rot s f False c dt)) = vy (velocity (player g))
      \<and> isGrounded (UpdateBody (player g) rot s f False c dt) = isGrounded (player g))
   \<and> (isGrounded b \<and> vy (velocity b) = 0 \<and> 0 \<le> vy (position b) \<longrightarrow>
      vy (position (UpdateBody b rot s f False c dt)) = vy (position b)
      \<and> vy (velocity (UpdateBody b rot s f False c dt)) = vy (velocity b)
      \<and> isGrounded (UpdateBody b rot s f False c dt) = isGrounded b)
   \<and> (isGrounded b \<longrightarrow>
      isGrounded (UpdateBody b rot s f False c dt)
      \<and> velocity (apply_jump (apply_gravity b dt) False) = velocity b)"
proof (intro conjI impI)
  assume a: "run (game_init mx0 my0) inps = Some g \<and> isGrounded (player g)"
  then have "vy (velocity (player g)) = 0 \<and> vy (position (player g)) = 0"
    using reachable_resting [of mx0 my0 inps g] by simp
  then have r: "isGrounded (player g)" "vy (velocity (player g)) = 0" "0 \<le> vy (position (player g))"
    using a by simp_all
  show "vy (position (UpdateBody (player g) rot s f False c dt)) = vy (position (player g))"
    "vy (velocity (UpdateBody (player g) rot s f False c dt)) = vy (velocity (player g))"
    "isGrounded (UpdateBody (player g) rot s f False c dt) = isGrounded (player g)"
    by (rule UpdateBody_rest_frame [OF r])+
next
  assume "isGrounded b \<and> vy (velocity b) = 0 \<and> 0 \<le> vy (position b)"
  then have r: "isGrounded b" "vy (velocity b) = 0" "0 \<le> vy (position b)" by simp_all
  show "vy (position (UpdateBody b rot s f False c dt)) = vy (position b)"
    "vy (velocity (UpdateBody b rot s f False c dt)) = vy (velocity b)"
    "isGrounded (UpdateBody b rot s f False c dt) = isGrounded b"
    by (rule UpdateBody_rest_frame [OF r])+
next
  assume g: "isGrounded b"
  then show "isGrounded (UpdateBody b rot s f False c dt)" by (rule UpdateBody_keeps_grounded)
  show "velocity (apply_jump (apply_gravity b dt) False) = velocity b"
    using g by (simp add: apply_jump_def apply_gravity_def)
qed

theorem UpdateBody_grounded_frame_witness:
  "\<exists>g. run (game_init 0 0) [frame_W 1] = Some g \<and> isGrounded (player g)
       \<and> vz (velocity (player g)) \<noteq> 0
       \<and> vy (position (UpdateBody (player g) 0 1 1 False True (1 / 60))) = vy (position (player g))
       \<and> vy (velocity (UpdateBody (player g) 0 1 1 False True (1 / 60))) = vy (velocity (player g))
       \<and> isGrounded (UpdateBody (player g) 0 1 1 False True (1 / 60))"
proof -
  obtain g g2 where g1: "tick (game_init 0 0) (frame_W 1) = Some g"
    and "tick g (frame_W (61 / 60)) = Some g2"
    and p: "player g = walk_forward 0 1"
    by (rule two_walk_ticks)
  have g: "run (game_init 0 0) [frame_W 1] = Some g" using g1 by simp
  have k: "isGrounded (player g)" "vz (velocity (player g)) \<noteq> 0"
    unfolding p using walk_forward_state [of 0 1] by (simp_all add: forward_speed_def)
  show ?thesis
    using UpdateBody_grounded_frame [of 0 0 "[frame_W 1]" g 0 1 1 True "1 / 60"] g k
    by (intro exI [of _ g]) simp
qed

end
